theory Spec2Isabelle
  imports Main "HOL-Library.Sublist"
begin

section \<open>The syntax tree\<close>

text \<open>
  The decompiler of \<^verbatim>\<open>ast_decompiler/decompiler.py\<close> walks the syntax tree of the
  standard \<^verbatim>\<open>ast\<close> module (the grammar of Python 2). Python's nodes are objects of one
  dynamic type, dispatched on their class name, so the model has one type \<open>node\<close> with one
  constructor per class. Fields keep the order of the grammar; the \<open>ctx\<close> fields, which
  the decompiler never reads, are left out. An operator field holds one of the operator
  classes of its group; when the decompiler visits an operator it is pushed on the node
  stack like every node, which is what the four \<open>_node\<close> wrappers stand for.
  \<open>Num\<close> and \<open>Str\<close> carry the text that the builtin \<^verbatim>\<open>repr\<close> gives for the literal's
  value; a \<open>Str\<close> also says whether the value is a \<^verbatim>\<open>str\<close> or a \<^verbatim>\<open>unicode\<close> object.
  \<open>KeyValuePair\<close>, \<open>StarArg\<close>, \<open>DoubleStarArg\<close>, \<open>KeywordArg\<close> and \<open>CallArgs\<close> are the
  helper classes that the decompiler defines itself.

  Python compares nodes by identity: \<^verbatim>\<open>visit_BinOp\<close> tests \<^verbatim>\<open>node == parent_node.left\<close>
  (the class \<^verbatim>\<open>ast.AST\<close> defines no equality of its own) and \<^verbatim>\<open>visit_IfExp\<close> tests
  \<^verbatim>\<open>node is parent_node.test\<close>. The nodes these tests are made on, \<open>BinOp\<close> and \<open>IfExp\<close>,
  therefore carry as their first field the identity of the object (what \<^verbatim>\<open>id\<close> returns):
  two occurrences in a tree are the same object exactly when they are equal as values
  of the model, identity included. A parser gives every node an object of its own; a
  tree built by a program may use one object in two places.
\<close>

datatype boolop = And | Or

datatype operator =
  Add | Sub | Mult | Div | Mod | Pow | LShift | RShift | BitOr | BitXor | BitAnd | FloorDiv

datatype unaryop = Invert | Not_op | UAdd | USub

datatype cmpop = Eq | NotEq | Lt | LtE | Gt | GtE | Is | IsNot | In | NotIn

datatype strval = PyStr string | PyUnicode string

datatype (plugins only: code) node =
    Module "node list"
  | Interactive "node list"
  | Expression node
  | Suite "node list"
  | FunctionDef string node "node list" "node list"
  | ClassDef string "node list" "node list" "node list"
  | Return "node option"
  | Delete "node list"
  | Assign "node list" node
  | AugAssign node operator node
  | Print "node option" "node list" bool
  | For node node "node list" "node list"
  | While node "node list" "node list"
  | If node "node list" "node list"
  | With node "node option" "node list"
  | Raise "node option" "node option" "node option"
  | TryExcept "node list" "node list" "node list"
  | TryFinally "node list" "node list"
  | Assert node "node option"
  | Import "node list"
  | ImportFrom "string option" "node list" "int option"
  | Exec node "node option" "node option"
  | Global "string list"
  | Expr node
  | Pass
  | Break
  | Continue
  | BoolOp boolop "node list"
  | BinOp nat node operator node
  | UnaryOp unaryop node
  | Lambda node node
  | IfExp nat node node node
  | Dict "node list" "node list"
  | Set_node "node list"
  | ListComp node "node list"
  | SetComp node "node list"
  | DictComp node node "node list"
  | GeneratorExp node "node list"
  | Yield "node option"
  | Compare node "cmpop list" "node list"
  | Call node "node list" "node list" "node option" "node option"
  | Repr node
  | Num string
  | Str strval
  | Attribute node string
  | Subscript node node
  | Name string
  | List_node "node list"
  | Tuple "node list"
  | Ellipsis
  | Slice "node option" "node option" "node option"
  | ExtSlice "node list"
  | Index node
  | comprehension node node "node list"
  | ExceptHandler "node option" "node option" "node list"
  | arguments "node list" "string option" "string option" "node list"
  | keyword_node string node
  | alias_node string "string option"
  | KeyValuePair node node
  | StarArg node
  | DoubleStarArg node
  | KeywordArg node node
  | CallArgs
  | Boolop_node boolop
  | Operator_node operator
  | Unaryop_node unaryop
  | Cmpop_node cmpop

section \<open>The tables\<close>

fun boolop_to_str :: "boolop \<Rightarrow> string" where
  "boolop_to_str And = ''and''"
| "boolop_to_str Or = ''or''"

fun operator_to_str :: "operator \<Rightarrow> string" where
  "operator_to_str Add = ''+''"
| "operator_to_str Sub = ''-''"
| "operator_to_str Mult = ''*''"
| "operator_to_str Div = ''/''"
| "operator_to_str Mod = ''%''"
| "operator_to_str Pow = ''**''"
| "operator_to_str LShift = ''<<''"
| "operator_to_str RShift = ''>>''"
| "operator_to_str BitOr = ''|''"
| "operator_to_str BitXor = ''^''"
| "operator_to_str BitAnd = ''&''"
| "operator_to_str FloorDiv = ''//''"

fun unaryop_to_str :: "unaryop \<Rightarrow> string" where
  "unaryop_to_str Invert = ''~''"
| "unaryop_to_str Not_op = ''not ''"
| "unaryop_to_str UAdd = ''+''"
| "unaryop_to_str USub = ''-''"

fun cmpop_to_str :: "cmpop \<Rightarrow> string" where
  "cmpop_to_str Eq = ''==''"
| "cmpop_to_str NotEq = ''!=''"
| "cmpop_to_str Lt = ''<''"
| "cmpop_to_str LtE = ''<=''"
| "cmpop_to_str Gt = ''>''"
| "cmpop_to_str GtE = ''>=''"
| "cmpop_to_str Is = ''is''"
| "cmpop_to_str IsNot = ''is not''"
| "cmpop_to_str In = ''in''"
| "cmpop_to_str NotIn = ''not in''"

fun precedence_of_boolop :: "boolop \<Rightarrow> int" where
  "precedence_of_boolop Or = 0"
| "precedence_of_boolop And = 1"

fun precedence_of_operator :: "operator \<Rightarrow> int" where
  "precedence_of_operator BitOr = 4"
| "precedence_of_operator BitXor = 5"
| "precedence_of_operator BitAnd = 6"
| "precedence_of_operator LShift = 7"
| "precedence_of_operator RShift = 7"
| "precedence_of_operator Add = 8"
| "precedence_of_operator Sub = 8"
| "precedence_of_operator Mult = 9"
| "precedence_of_operator Div = 9"
| "precedence_of_operator FloorDiv = 9"
| "precedence_of_operator Mod = 9"
| "precedence_of_operator Pow = 11"

fun precedence_of_unaryop :: "unaryop \<Rightarrow> int" where
  "precedence_of_unaryop Not_op = 2"
| "precedence_of_unaryop UAdd = 10"
| "precedence_of_unaryop USub = 10"
| "precedence_of_unaryop Invert = 10"

text \<open>
  \<^verbatim>\<open>precedence_of_node\<close>: the operator's entry for \<open>BinOp\<close>, \<open>UnaryOp\<close> and \<open>BoolOp\<close>, the
  class's entry otherwise, and \<open>-1\<close> for a class without an entry, for the marker
  \<open>CallArgs\<close> and for \<^verbatim>\<open>None\<close> (no parent).
\<close>

definition precedence_of_node :: "node option \<Rightarrow> int" where
  "precedence_of_node n =
     (case n of
        Some (BinOp i l oper r) \<Rightarrow> precedence_of_operator oper
      | Some (UnaryOp oper x) \<Rightarrow> precedence_of_unaryop oper
      | Some (BoolOp oper vs) \<Rightarrow> precedence_of_boolop oper
      | Some (Compare l ops cs) \<Rightarrow> 3
      | Some (Subscript v sl) \<Rightarrow> 12
      | Some (Call f as ks sa ka) \<Rightarrow> 12
      | Some (Attribute v a) \<Rightarrow> 12
      | _ \<Rightarrow> - 1)"

text \<open>The class tests \<^verbatim>\<open>isinstance(node, ast.X)\<close> that the decompiler makes.\<close>

definition is_BinOp :: "node \<Rightarrow> bool" where
  "is_BinOp n = (case n of BinOp i l oper r \<Rightarrow> True | _ \<Rightarrow> False)"

definition is_UnaryOp :: "node \<Rightarrow> bool" where
  "is_UnaryOp n = (case n of UnaryOp oper x \<Rightarrow> True | _ \<Rightarrow> False)"

definition is_Compare :: "node \<Rightarrow> bool" where
  "is_Compare n = (case n of Compare l ops cs \<Rightarrow> True | _ \<Rightarrow> False)"

definition is_IfExp :: "node \<Rightarrow> bool" where
  "is_IfExp n = (case n of IfExp i t b e \<Rightarrow> True | _ \<Rightarrow> False)"

definition is_Attribute :: "node \<Rightarrow> bool" where
  "is_Attribute n = (case n of Attribute v a \<Rightarrow> True | _ \<Rightarrow> False)"

definition is_Subscript :: "node \<Rightarrow> bool" where
  "is_Subscript n = (case n of Subscript v sl \<Rightarrow> True | _ \<Rightarrow> False)"

definition is_Call :: "node \<Rightarrow> bool" where
  "is_Call n = (case n of Call f as ks sa ka \<Rightarrow> True | _ \<Rightarrow> False)"

definition is_Expr :: "node \<Rightarrow> bool" where
  "is_Expr n = (case n of Expr v \<Rightarrow> True | _ \<Rightarrow> False)"

definition is_Assign :: "node \<Rightarrow> bool" where
  "is_Assign n = (case n of Assign ts v \<Rightarrow> True | _ \<Rightarrow> False)"

definition is_AugAssign :: "node \<Rightarrow> bool" where
  "is_AugAssign n = (case n of AugAssign t oper v \<Rightarrow> True | _ \<Rightarrow> False)"

definition is_Return :: "node \<Rightarrow> bool" where
  "is_Return n = (case n of Return v \<Rightarrow> True | _ \<Rightarrow> False)"

definition is_Yield :: "node \<Rightarrow> bool" where
  "is_Yield n = (case n of Yield v \<Rightarrow> True | _ \<Rightarrow> False)"

definition is_Lambda :: "node \<Rightarrow> bool" where
  "is_Lambda n = (case n of Lambda a b \<Rightarrow> True | _ \<Rightarrow> False)"

definition is_If :: "node \<Rightarrow> bool" where
  "is_If n = (case n of If t b e \<Rightarrow> True | _ \<Rightarrow> False)"

definition is_With :: "node \<Rightarrow> bool" where
  "is_With n = (case n of With c v b \<Rightarrow> True | _ \<Rightarrow> False)"

definition is_TryExcept :: "node \<Rightarrow> bool" where
  "is_TryExcept n = (case n of TryExcept b h e \<Rightarrow> True | _ \<Rightarrow> False)"

section \<open>The state of a Decompiler object\<close>

text \<open>
  The fields of \<^verbatim>\<open>Decompiler.__init__\<close>. \<open>lines\<close> and \<open>current_line\<close> are lists of
  strings, as in the source; \<open>node_stack\<close> grows at its end. Three more fields are ghost
  state, written but never read by the model of the code: \<open>depth\<close> counts the calls of
  \<^verbatim>\<open>Decompiler.visit\<close> that are open, \<open>markers\<close> counts the calls of \<^verbatim>\<open>visit_Call\<close> that
  are between their push and their pop of the marker, and \<open>trail\<close> records the node stack
  together with both counts each time the node stack changes.
\<close>

record state =
  lines :: "string list"
  current_line :: "string list"
  current_indentation :: int
  node_stack :: "node list"
  indentation :: int
  max_line_length :: int
  has_unicode_literals :: bool
  depth :: nat
  markers :: nat
  trail :: "(node list \<times> nat \<times> nat) list"

datatype error = NotImplementedError | AttributeError

text \<open>
  A method of the decompiler is a function from the state to a result: the state it
  leaves, or the exception it raises with the state at that moment (which the
  \<^verbatim>\<open>finally\<close> blocks of the source still change while the exception travels up).
\<close>

type_synonym result = "(error \<times> state) + state"

type_synonym act = "state \<Rightarrow> result"

definition raise :: "error \<Rightarrow> act" where
  "raise e s = Inl (e, s)"

definition then_act :: "act \<Rightarrow> act \<Rightarrow> act" where
  "then_act a b s = (case a s of Inl x \<Rightarrow> Inl x | Inr s' \<Rightarrow> b s')"

primrec seq :: "act list \<Rightarrow> act" where
  "seq [] = Inr"
| "seq (a # as) = then_act a (seq as)"

definition when_do :: "bool \<Rightarrow> act \<Rightarrow> act" where
  "when_do c a = (if c then a else Inr)"

definition if_some :: "'a option \<Rightarrow> ('a \<Rightarrow> act) \<Rightarrow> act" where
  "if_some v f = (case v of None \<Rightarrow> Inr | Some x \<Rightarrow> f x)"

definition try_finally :: "act \<Rightarrow> (state \<Rightarrow> state) \<Rightarrow> act" where
  "try_finally a f s = (case a s of Inl (e, s') \<Rightarrow> Inl (e, f s') | Inr s' \<Rightarrow> Inr (f s'))"

definition state_of :: "result \<Rightarrow> state" where
  "state_of r = (case r of Inl (e, s) \<Rightarrow> s | Inr s \<Rightarrow> s)"

subsection \<open>The output buffer\<close>

definition newline :: string where
  "newline = [CHR 0x0A]"

definition write_code :: "string \<Rightarrow> act" where
  "write_code code s = Inr (s\<lparr>current_line := current_line s @ [code]\<rparr>)"

definition write_indentation :: act where
  "write_indentation s = write_code (replicate (nat (current_indentation s)) CHR '' '') s"

definition write_newline :: act where
  "write_newline s =
     Inr (s\<lparr>lines := lines s @ [concat (current_line s) @ newline], current_line := []\<rparr>)"

definition current_line_length :: "state \<Rightarrow> int" where
  "current_line_length s = int (sum_list (map length (current_line s)))"

definition add_indentation :: "act \<Rightarrow> act" where
  "add_indentation body s =
     try_finally body
       (\<lambda>s'. s'\<lparr>current_indentation := current_indentation s' - indentation s'\<rparr>)
       (s\<lparr>current_indentation := current_indentation s + indentation s\<rparr>)"

definition parenthesize_if :: "bool \<Rightarrow> act \<Rightarrow> act" where
  "parenthesize_if condition body =
     (if condition then seq [write_code ''('', body, write_code '')''] else body)"

definition write_suite :: "act list \<Rightarrow> act" where
  "write_suite nodes = add_indentation (seq nodes)"

definition write_else :: "act list \<Rightarrow> act" where
  "write_else orelse =
     when_do (orelse \<noteq> [])
       (seq [write_indentation, write_code ''else:'', write_newline, write_suite orelse])"

subsection \<open>The node stack\<close>

definition log_stack :: "state \<Rightarrow> state" where
  "log_stack s = s\<lparr>trail := trail s @ [(node_stack s, depth s, markers s)]\<rparr>"

definition enter :: "node \<Rightarrow> state \<Rightarrow> state" where
  "enter n s = log_stack (s\<lparr>node_stack := node_stack s @ [n], depth := Suc (depth s)\<rparr>)"

definition leave :: "state \<Rightarrow> state" where
  "leave s = log_stack (s\<lparr>node_stack := butlast (node_stack s), depth := depth s - 1\<rparr>)"

definition push_marker :: "state \<Rightarrow> state" where
  "push_marker s =
     log_stack (s\<lparr>node_stack := node_stack s @ [CallArgs], markers := Suc (markers s)\<rparr>)"

definition pop_marker :: "state \<Rightarrow> state" where
  "pop_marker s =
     log_stack (s\<lparr>node_stack := butlast (node_stack s), markers := markers s - 1\<rparr>)"

text \<open>
  \<^verbatim>\<open>Decompiler.visit\<close>: push the node, run the method of its class, pop in the
  \<^verbatim>\<open>finally\<close> block.
\<close>

definition visiting :: "node \<Rightarrow> act \<Rightarrow> act" where
  "visiting n body s = try_finally body leave (enter n s)"

definition get_parent_node :: "state \<Rightarrow> node option" where
  "get_parent_node s =
     (let st = node_stack s in
      if length st < 2 then None else Some (st ! (length st - 2)))"

definition parent_is :: "(node \<Rightarrow> bool) \<Rightarrow> state \<Rightarrow> bool" where
  "parent_is P s = (case get_parent_node s of None \<Rightarrow> False | Some p \<Rightarrow> P p)"

section \<open>Lists of expressions\<close>

text \<open>
  \<^verbatim>\<open>write_expression_list\<close> gets the methods of the nodes it writes: the model passes,
  for each node of the list, the action \<^verbatim>\<open>self.visit(node)\<close>. The first loop is
  \<open>inline_attempt\<close>: its result says whether the loop left through \<^verbatim>\<open>break\<close>.
\<close>

definition is_space :: "char \<Rightarrow> bool" where
  "is_space c = (c \<in> set [CHR '' '', CHR 0x09, CHR 0x0A, CHR 0x0B, CHR 0x0C, CHR 0x0D])"

definition rstrip :: "string \<Rightarrow> string" where
  "rstrip str = rev (dropWhile is_space (rev str))"

fun inline_attempt ::
  "act list \<Rightarrow> string \<Rightarrow> bool \<Rightarrow> bool \<Rightarrow> state \<Rightarrow> (error \<times> state) + (bool \<times> state)" where
  "inline_attempt [] separator allow_newlines first s = Inr (False, s)"
| "inline_attempt (node # nodes) separator allow_newlines first s =
     (case (if first then Inr s else write_code separator s) of
        Inl x \<Rightarrow> Inl x
      | Inr s1 \<Rightarrow>
          (case node s1 of
             Inl x \<Rightarrow> Inl x
           | Inr s2 \<Rightarrow>
               if allow_newlines \<and> current_line_length s2 > max_line_length s2
               then Inr (True, s2)
               else inline_attempt nodes separator allow_newlines False s2))"

fun multiline_items :: "act list \<Rightarrow> string \<Rightarrow> bool \<Rightarrow> act" where
  "multiline_items [] separator final_separator_if_multiline = Inr"
| "multiline_items (node # nodes) separator final_separator_if_multiline =
     seq [write_indentation, node,
          when_do (final_separator_if_multiline \<or> nodes \<noteq> []) (write_code separator),
          write_newline,
          multiline_items nodes separator final_separator_if_multiline]"

definition reset_state :: "state \<Rightarrow> state \<Rightarrow> state" where
  "reset_state s s' =
     s'\<lparr>lines := take (length (lines s)) (lines s'), current_line := current_line s\<rparr>"

definition write_multiline :: "act list \<Rightarrow> string \<Rightarrow> bool \<Rightarrow> bool \<Rightarrow> act" where
  "write_multiline nodes separator need_parens final_separator_if_multiline =
     seq [when_do need_parens (write_code ''(''),
          write_newline,
          add_indentation (multiline_items nodes (rstrip separator) final_separator_if_multiline),
          write_indentation,
          when_do need_parens (write_code '')'')]"

definition write_expression_list :: "act list \<Rightarrow> string \<Rightarrow> bool \<Rightarrow> bool \<Rightarrow> bool \<Rightarrow> act" where
  "write_expression_list nodes separator allow_newlines need_parens
       final_separator_if_multiline s =
     (case inline_attempt nodes separator allow_newlines True s of
        Inl x \<Rightarrow> Inl x
      | Inr (False, s') \<Rightarrow> Inr s'
      | Inr (True, s') \<Rightarrow>
          write_multiline nodes separator need_parens final_separator_if_multiline
            (reset_state s s'))"

section \<open>The visit methods\<close>

text \<open>
  Each \<^verbatim>\<open>visit_X\<close> method is a definition that gets, for every child the method visits,
  the action \<^verbatim>\<open>self.visit(child)\<close>, and the fields it reads itself. Trees are taken to
  respect the field types of the grammar.
\<close>

definition generic_visit :: act where
  "generic_visit = raise NotImplementedError"

definition visit_Module :: "act list \<Rightarrow> act" where
  "visit_Module body = seq body"

definition visit_Expression :: "act \<Rightarrow> act" where
  "visit_Expression body = body"

subsection \<open>Multi-line statements\<close>

definition write_decorators :: "act list \<Rightarrow> act" where
  "write_decorators decorator_list =
     seq (map (\<lambda>decorator. seq [write_indentation, write_code ''@'', decorator, write_newline])
            decorator_list)"

definition visit_FunctionDef :: "string \<Rightarrow> act \<Rightarrow> act list \<Rightarrow> act list \<Rightarrow> act" where
  "visit_FunctionDef name args body decorator_list =
     seq [write_newline,
          write_decorators decorator_list,
          write_indentation,
          write_code (''def '' @ name @ ''(''),
          args,
          write_code ''):'',
          write_newline,
          write_suite body]"

definition visit_ClassDef :: "string \<Rightarrow> act list \<Rightarrow> act list \<Rightarrow> act list \<Rightarrow> act" where
  "visit_ClassDef name bases body decorator_list =
     seq [write_newline,
          write_newline,
          write_decorators decorator_list,
          write_indentation,
          write_code (''class '' @ name @ ''(''),
          write_expression_list bases '', '' True False True,
          write_code ''):'',
          write_newline,
          write_suite body]"

definition visit_For :: "act \<Rightarrow> act \<Rightarrow> act list \<Rightarrow> act list \<Rightarrow> act" where
  "visit_For target iter body orelse =
     seq [write_indentation, write_code ''for '', target, write_code '' in '', iter,
          write_code '':'', write_newline, write_suite body, write_else orelse]"

definition visit_While :: "act \<Rightarrow> act list \<Rightarrow> act list \<Rightarrow> act" where
  "visit_While test body orelse =
     seq [write_indentation, write_code ''while '', test, write_code '':'', write_newline,
          write_suite body, write_else orelse]"

text \<open>
  \<^verbatim>\<open>visit_If\<close>: one round of the method, for the statement itself (\<open>''if ''\<close>) or for a
  statement reached by the \<^verbatim>\<open>while\<close> loop (\<open>''elif ''\<close>). \<open>chain\<close> says that the
  loop's test holds for \<open>orelse\<close>; \<open>next_round\<close> is then the round of \<open>orelse[0]\<close>.
\<close>

definition is_single :: "(node \<Rightarrow> bool) \<Rightarrow> node list \<Rightarrow> bool" where
  "is_single P nodes = (case nodes of [x] \<Rightarrow> P x | _ \<Rightarrow> False)"

definition visit_If :: "string \<Rightarrow> act \<Rightarrow> act list \<Rightarrow> bool \<Rightarrow> act \<Rightarrow> act list \<Rightarrow> act" where
  "visit_If kw test body chain next_round orelse =
     seq [write_indentation, write_code kw, test, write_code '':'', write_newline,
          write_suite body,
          if chain then next_round else write_else orelse]"

text \<open>
  \<^verbatim>\<open>visit_With\<close>: \<open>with_item\<close> is one round of the loop over \<^verbatim>\<open>nodes\<close>; \<open>chain\<close> says
  that the body is a single \<^verbatim>\<open>With\<close>, whose item and body \<open>next_item\<close> writes.
\<close>

definition with_item :: "act \<Rightarrow> act option \<Rightarrow> act" where
  "with_item context_expr optional_vars =
     seq [context_expr, if_some optional_vars (\<lambda>v. seq [write_code '' as '', v])]"

definition with_rest :: "bool \<Rightarrow> act \<Rightarrow> act list \<Rightarrow> act" where
  "with_rest chain next_item body =
     (if chain then seq [write_code '', '', next_item]
      else seq [write_code '':'', write_newline, write_suite body])"

definition visit_With :: "act \<Rightarrow> act option \<Rightarrow> bool \<Rightarrow> act \<Rightarrow> act list \<Rightarrow> act" where
  "visit_With context_expr optional_vars chain next_item body =
     seq [write_indentation, write_code ''with '',
          with_item context_expr optional_vars,
          with_rest chain next_item body]"

definition visit_TryExcept :: "act list \<Rightarrow> act list \<Rightarrow> act list \<Rightarrow> act" where
  "visit_TryExcept body handlers orelse =
     seq [write_indentation, write_code ''try:'', write_newline, write_suite body,
          seq handlers, write_else orelse]"

definition visit_TryFinally :: "bool \<Rightarrow> act list \<Rightarrow> act list \<Rightarrow> act" where
  "visit_TryFinally single_try_except body finalbody =
     seq [if single_try_except then hd body
          else seq [write_indentation, write_code ''try:'', write_newline, write_suite body],
          write_indentation, write_code ''finally:'', write_newline, write_suite finalbody]"

subsection \<open>One-line statements\<close>

definition visit_Return :: "act option \<Rightarrow> act" where
  "visit_Return val =
     seq [write_indentation, write_code ''return'',
          if_some val (\<lambda>v. seq [write_code '' '', v]),
          write_newline]"

definition visit_Delete :: "act list \<Rightarrow> act" where
  "visit_Delete targets =
     seq [write_indentation, write_code ''del '',
          write_expression_list targets '', '' True True True, write_newline]"

definition visit_Assign :: "act list \<Rightarrow> act \<Rightarrow> act" where
  "visit_Assign targets val =
     seq [write_indentation, write_expression_list targets '' = '' True True True,
          write_code '' = '', val, write_newline]"

definition visit_AugAssign :: "act \<Rightarrow> act \<Rightarrow> act \<Rightarrow> act" where
  "visit_AugAssign target oper val =
     seq [write_indentation, target, write_code '' '', oper, write_code ''= '', val,
          write_newline]"

definition visit_Print :: "act option \<Rightarrow> act list \<Rightarrow> bool \<Rightarrow> act" where
  "visit_Print dest vals nl =
     seq [write_indentation, write_code ''print'',
          if_some dest
            (\<lambda>d. seq [write_code '' >>'', d, when_do (vals \<noteq> []) (write_code '','')]),
          when_do (vals \<noteq> []) (write_code '' ''),
          write_expression_list vals '', '' False True True,
          when_do (\<not> nl) (write_code '',''),
          write_newline]"

definition present :: "'a option list \<Rightarrow> 'a list" where
  "present xs = concat (map (\<lambda>x. case x of None \<Rightarrow> [] | Some y \<Rightarrow> [y]) xs)"

definition visit_Raise :: "act option \<Rightarrow> act option \<Rightarrow> act option \<Rightarrow> act" where
  "visit_Raise type inst tback =
     (let expressions = present [type, inst, tback] in
      seq [write_indentation, write_code ''raise'',
           when_do (expressions \<noteq> [])
             (seq [write_code '' '', write_expression_list expressions '', '' False True True]),
           write_newline])"

definition visit_Assert :: "act \<Rightarrow> act option \<Rightarrow> act" where
  "visit_Assert test msg =
     seq [write_indentation, write_code ''assert '', test,
          if_some msg (\<lambda>m. seq [write_code '', '', m]),
          write_newline]"

definition visit_Import :: "act list \<Rightarrow> act" where
  "visit_Import names =
     seq [write_indentation, write_code ''import '',
          write_expression_list names '', '' True True True, write_newline]"

text \<open>
  The generator expression of \<^verbatim>\<open>visit_ImportFrom\<close>: \<^verbatim>\<open>any\<close> stops at the first alias
  named \<^verbatim>\<open>unicode_literals\<close>; a node that is not an alias has no such field to read.
\<close>

primrec any_unicode_literals :: "node list \<Rightarrow> error + bool" where
  "any_unicode_literals [] = Inr False"
| "any_unicode_literals (n # ns) =
     (case n of
        alias_node name asname \<Rightarrow>
          if name = ''unicode_literals'' then Inr True else any_unicode_literals ns
      | _ \<Rightarrow> Inl AttributeError)"

definition truthy :: "string option \<Rightarrow> bool" where
  "truthy v = (case v of None \<Rightarrow> False | Some x \<Rightarrow> x \<noteq> [])"

definition level_or_0 :: "int option \<Rightarrow> int" where
  "level_or_0 level = (case level of None \<Rightarrow> 0 | Some l \<Rightarrow> l)"

definition write_import_from :: "string option \<Rightarrow> act list \<Rightarrow> int option \<Rightarrow> act" where
  "write_import_from module names level =
     seq [write_indentation,
          write_code (''from '' @ replicate (nat (level_or_0 level)) CHR ''.''),
          when_do (truthy module) (write_code (the module)),
          write_code '' import '',
          write_expression_list names '', '' True True True,
          write_newline]"

definition visit_ImportFrom :: "string option \<Rightarrow> node list \<Rightarrow> act list \<Rightarrow> int option \<Rightarrow> act" where
  "visit_ImportFrom module alias_nodes names level s =
     (if module = Some ''__future__'' then
        (case any_unicode_literals alias_nodes of
           Inl e \<Rightarrow> raise e s
         | Inr found \<Rightarrow>
             write_import_from module names level
               (if found then s\<lparr>has_unicode_literals := True\<rparr> else s))
      else write_import_from module names level s)"

definition visit_Exec :: "act \<Rightarrow> act option \<Rightarrow> act option \<Rightarrow> act" where
  "visit_Exec body globals locals =
     seq [write_indentation, write_code ''exec '', body,
          if_some globals (\<lambda>g. seq [write_code '' in '', g]),
          if_some locals (\<lambda>l. seq [write_code '', '', l]),
          write_newline]"

definition visit_Name :: "string \<Rightarrow> act" where
  "visit_Name ident = write_code ident"

definition visit_Global :: "string list \<Rightarrow> act" where
  "visit_Global names =
     seq [write_indentation, write_code ''global '',
          write_expression_list (map (\<lambda>name. visiting (Name name) (visit_Name name)) names)
            '', '' True True True,
          write_newline]"

definition visit_Expr :: "act \<Rightarrow> act" where
  "visit_Expr val = seq [write_indentation, val, write_newline]"

definition visit_Pass :: act where
  "visit_Pass = seq [write_indentation, write_code ''pass'', write_newline]"

definition visit_Break :: act where
  "visit_Break = seq [write_indentation, write_code ''break'', write_newline]"

definition visit_Continue :: act where
  "visit_Continue = seq [write_indentation, write_code ''continue'', write_newline]"

subsection \<open>Expressions\<close>

text \<open>
  \<open>visit node Plain\<close> is the call \<^verbatim>\<open>self.visit(node)\<close>. \<open>As_elif\<close> and \<open>As_with\<close> are not
  visits but the rounds of the loops of \<^verbatim>\<open>visit_If\<close> and \<^verbatim>\<open>visit_With\<close> over the nested
  statements, which these loops read without visiting them.
\<close>

datatype via = Plain | As_elif | As_with

definition visit_op :: "node \<Rightarrow> string \<Rightarrow> act" where
  "visit_op n str = visiting n (write_code str)"

definition visit_BoolOp :: "node \<Rightarrow> boolop \<Rightarrow> act list \<Rightarrow> act" where
  "visit_BoolOp node oper vals s =
     (let my_prec = precedence_of_node (Some node);
          parent_prec = precedence_of_node (get_parent_node s)
      in parenthesize_if (my_prec \<le> parent_prec)
           (write_expression_list vals
              ('' '' @ (if oper = And then ''and'' else ''or'') @ '' '') True True False) s)"

definition visit_BinOp :: "node \<Rightarrow> act \<Rightarrow> operator \<Rightarrow> act \<Rightarrow> act" where
  "visit_BinOp node left oper right s =
     (let parent_node = get_parent_node s;
          my_prec = precedence_of_node (Some node);
          parent_prec = precedence_of_node parent_node;
          body = (\<lambda>should_parenthesize.
                    parenthesize_if should_parenthesize
                      (seq [left, write_code '' '',
                            visit_op (Operator_node oper) (operator_to_str oper),
                            write_code '' '', right]))
      in if my_prec < parent_prec then body True s
         else if my_prec = parent_prec then
           (case parent_node of
              Some (BinOp pi pl po pr) \<Rightarrow>
                if oper = Pow then body (node = pl) s else body (node = pr) s
            | _ \<Rightarrow> raise AttributeError s)
         else body False s)"

definition visit_UnaryOp :: "node \<Rightarrow> unaryop \<Rightarrow> act \<Rightarrow> act" where
  "visit_UnaryOp node oper operand s =
     (let my_prec = precedence_of_node (Some node);
          parent_prec = precedence_of_node (get_parent_node s)
      in parenthesize_if (my_prec < parent_prec)
           (seq [visit_op (Unaryop_node oper) (unaryop_to_str oper), operand]) s)"

definition lambda_parent :: "node \<Rightarrow> bool" where
  "lambda_parent p =
     (is_BinOp p \<or> is_UnaryOp p \<or> is_Compare p \<or> is_IfExp p \<or> is_Attribute p \<or>
      is_Subscript p \<or> is_Call p)"

definition lambda_space :: "node \<Rightarrow> act" where
  "lambda_space args_node =
     (case args_node of
        arguments args vararg kwarg defaults \<Rightarrow>
          when_do (args \<noteq> [] \<or> truthy vararg \<or> truthy kwarg) (write_code '' '')
      | _ \<Rightarrow> raise AttributeError)"

definition visit_Lambda :: "node \<Rightarrow> act \<Rightarrow> act \<Rightarrow> act" where
  "visit_Lambda args_node args body s =
     (let should_parenthesize = parent_is lambda_parent s
      in parenthesize_if should_parenthesize
           (seq [write_code ''lambda'', lambda_space args_node, args, write_code '': '', body])
           s)"

definition ifexp_parent :: "node \<Rightarrow> bool" where
  "ifexp_parent p =
     (is_BinOp p \<or> is_UnaryOp p \<or> is_Compare p \<or> is_Attribute p \<or> is_Subscript p \<or>
      is_Call p)"

definition is_test_or_body :: "node \<Rightarrow> node option \<Rightarrow> bool" where
  "is_test_or_body node parent_node =
     (case parent_node of
        Some (IfExp pi ptest pbody porelse) \<Rightarrow> node = ptest \<or> node = pbody
      | _ \<Rightarrow> False)"

definition visit_IfExp :: "node \<Rightarrow> act \<Rightarrow> act \<Rightarrow> act \<Rightarrow> act" where
  "visit_IfExp node test body orelse s =
     (let should_parenthesize =
            (if parent_is ifexp_parent s then True
             else if parent_is is_IfExp s \<and> is_test_or_body node (get_parent_node s) then True
             else False)
      in parenthesize_if should_parenthesize
           (seq [body, write_code '' if '', test, write_code '' else '', orelse]) s)"

definition visit_KeyValuePair :: "act \<Rightarrow> act \<Rightarrow> act" where
  "visit_KeyValuePair k v = seq [k, write_code '': '', v]"

definition key_value_pairs :: "node list \<Rightarrow> node list \<Rightarrow> act list \<Rightarrow> act list \<Rightarrow> act list" where
  "key_value_pairs key_nodes value_nodes keys vals =
     map (\<lambda>((kn, k), (vn, v)). visiting (KeyValuePair kn vn) (visit_KeyValuePair k v))
       (zip (zip key_nodes keys) (zip value_nodes vals))"

definition visit_Dict :: "node list \<Rightarrow> node list \<Rightarrow> act list \<Rightarrow> act list \<Rightarrow> act" where
  "visit_Dict key_nodes value_nodes keys vals =
     seq [write_code ''{'',
          write_expression_list (key_value_pairs key_nodes value_nodes keys vals)
            '', '' True False True,
          write_code ''}'']"

definition visit_Set :: "act list \<Rightarrow> act" where
  "visit_Set elts =
     seq [write_code ''{'', write_expression_list elts '', '' True False True,
          write_code ''}'']"

definition visit_comp :: "act \<Rightarrow> act list \<Rightarrow> string \<Rightarrow> string \<Rightarrow> act" where
  "visit_comp elt generators start end =
     seq [write_code start,
          write_expression_list (elt # generators) '' '' True False True,
          write_code end]"

definition visit_DictComp :: "node \<Rightarrow> node \<Rightarrow> act \<Rightarrow> act \<Rightarrow> act list \<Rightarrow> act" where
  "visit_DictComp key_node value_node k v generators =
     seq [write_code ''{'',
          write_expression_list
            (visiting (KeyValuePair key_node value_node) (visit_KeyValuePair k v) # generators)
            '' '' True False True,
          write_code ''}'']"

definition yield_parent :: "node \<Rightarrow> bool" where
  "yield_parent p = (is_Expr p \<or> is_Assign p \<or> is_AugAssign p)"

definition visit_Yield :: "act option \<Rightarrow> act" where
  "visit_Yield val s =
     parenthesize_if (\<not> parent_is yield_parent s)
       (seq [write_code ''yield'', if_some val (\<lambda>v. seq [write_code '' '', v])]) s"

definition visit_Compare :: "node \<Rightarrow> act \<Rightarrow> cmpop list \<Rightarrow> act list \<Rightarrow> act" where
  "visit_Compare node left ops comparators s =
     (let my_prec = precedence_of_node (Some node);
          parent_prec = precedence_of_node (get_parent_node s)
      in parenthesize_if (my_prec \<le> parent_prec)
           (seq [left,
                 seq (map (\<lambda>(oper, expr).
                             seq [write_code '' '',
                                  visit_op (Cmpop_node oper) (cmpop_to_str oper),
                                  write_code '' '', expr])
                        (zip ops comparators))]) s)"

definition visit_StarArg :: "act \<Rightarrow> act" where
  "visit_StarArg arg = seq [write_code ''*'', arg]"

definition visit_DoubleStarArg :: "act \<Rightarrow> act" where
  "visit_DoubleStarArg arg = seq [write_code ''**'', arg]"

definition visit_KeywordArg :: "act \<Rightarrow> act \<Rightarrow> act" where
  "visit_KeywordArg arg val = seq [arg, write_code ''='', val]"

text \<open>
  \<^verbatim>\<open>visit_Call\<close>: \<open>args\<close> are the visits of \<^verbatim>\<open>node.args + node.keywords\<close>; \<open>starargs\<close> and
  \<open>kwargs\<close> come with their nodes, which the method wraps. The marker is pushed before
  the \<^verbatim>\<open>try\<close> block and popped in its \<^verbatim>\<open>finally\<close>.
\<close>

definition call_args ::
  "act list \<Rightarrow> (node \<times> act) option \<Rightarrow> (node \<times> act) option \<Rightarrow> act list" where
  "call_args args starargs kwargs =
     args
     @ (case starargs of None \<Rightarrow> [] | Some (n, a) \<Rightarrow> [visiting (StarArg n) (visit_StarArg a)])
     @ (case kwargs of None \<Rightarrow> []
        | Some (n, a) \<Rightarrow> [visiting (DoubleStarArg n) (visit_DoubleStarArg a)])"

definition visit_Call ::
  "act \<Rightarrow> act list \<Rightarrow> (node \<times> act) option \<Rightarrow> (node \<times> act) option \<Rightarrow> act" where
  "visit_Call func args starargs kwargs =
     seq [func, write_code ''('',
          (\<lambda>s. try_finally
                 (seq [when_do (call_args args starargs kwargs \<noteq> [])
                         (write_expression_list (call_args args starargs kwargs)
                            '', '' True False False),
                       write_code '')''])
                 pop_marker (push_marker s))]"

definition visit_Repr :: "act \<Rightarrow> act" where
  "visit_Repr val = seq [write_code ''`'', val, write_code ''`'']"

definition visit_Num :: "string \<Rightarrow> act" where
  "visit_Num repr_n = write_code repr_n"

definition is_str :: "strval \<Rightarrow> bool" where
  "is_str v = (case v of PyStr r \<Rightarrow> True | PyUnicode r \<Rightarrow> False)"

definition repr_of :: "strval \<Rightarrow> string" where
  "repr_of v = (case v of PyStr r \<Rightarrow> r | PyUnicode r \<Rightarrow> r)"

definition visit_Str :: "strval \<Rightarrow> act" where
  "visit_Str v s =
     seq [when_do (has_unicode_literals s \<and> is_str v) (write_code ''b''),
          write_code (repr_of v)] s"

definition visit_Attribute :: "act \<Rightarrow> string \<Rightarrow> act" where
  "visit_Attribute val attr = seq [val, write_code (''.'' @ attr)]"

definition visit_Subscript :: "act \<Rightarrow> act \<Rightarrow> act" where
  "visit_Subscript val slice = seq [val, write_code ''['', slice, write_code '']'']"

definition visit_List :: "act list \<Rightarrow> act" where
  "visit_List elts =
     seq [write_code ''['', write_expression_list elts '', '' True False True,
          write_code '']'']"

definition tuple_parent :: "node \<Rightarrow> bool" where
  "tuple_parent p = (is_Expr p \<or> is_Assign p \<or> is_AugAssign p \<or> is_Return p \<or> is_Yield p)"

definition visit_Tuple :: "act list \<Rightarrow> act" where
  "visit_Tuple elts s =
     (if elts = [] then write_code ''()'' s
      else
        (let should_parenthesize = \<not> parent_is tuple_parent s
         in parenthesize_if should_parenthesize
              (if length elts = 1 then seq [hd elts, write_code '','']
               else write_expression_list elts '', '' True (\<not> should_parenthesize) True) s))"

subsection \<open>Slices and other classes\<close>

definition visit_Ellipsis :: act where
  "visit_Ellipsis = write_code ''Ellipsis''"

definition visit_Slice :: "act option \<Rightarrow> act option \<Rightarrow> act option \<Rightarrow> act" where
  "visit_Slice lower upper step =
     seq [if_some lower (\<lambda>l. l), write_code '':'', if_some upper (\<lambda>u. u),
          if_some step (\<lambda>st. seq [write_code '':'', st])]"

definition visit_ExtSlice :: "act list \<Rightarrow> act" where
  "visit_ExtSlice dims = write_expression_list dims '', '' True False True"

definition visit_Index :: "act \<Rightarrow> act" where
  "visit_Index val = val"

definition visit_comprehension :: "act \<Rightarrow> act \<Rightarrow> act list \<Rightarrow> act" where
  "visit_comprehension target iter ifs =
     seq [write_code ''for '', target, write_code '' in '', iter,
          seq (map (\<lambda>expr. seq [write_code '' if '', expr]) ifs)]"

definition visit_ExceptHandler :: "act option \<Rightarrow> act option \<Rightarrow> act list \<Rightarrow> act" where
  "visit_ExceptHandler type name body =
     seq [write_indentation, write_code ''except'',
          if_some type
            (\<lambda>t. seq [write_code '' '', t, if_some name (\<lambda>n. seq [write_code '' as '', n])]),
          write_code '':'', write_newline, write_suite body]"

text \<open>
  \<^verbatim>\<open>visit_arguments\<close>: the slices \<^verbatim>\<open>node.args[:-num_defaults]\<close> and
  \<^verbatim>\<open>node.args[-num_defaults:]\<close> are \<open>take\<close> and \<open>drop\<close> at \<open>length args - num_defaults\<close>,
  which is \<open>0\<close> when there are more defaults than arguments, as in Python.
\<close>

definition name_arg :: "string \<Rightarrow> act" where
  "name_arg name = visiting (Name name) (visit_Name name)"

definition arguments_list ::
  "node list \<Rightarrow> node list \<Rightarrow> string option \<Rightarrow> string option \<Rightarrow> act list \<Rightarrow> act list
   \<Rightarrow> act list" where
  "arguments_list arg_nodes default_nodes vararg kwarg args defaults =
     (let num_defaults = length default_nodes;
          split = length arg_nodes - num_defaults;
          plain = (if num_defaults \<noteq> 0 then take split args else args);
          default_args =
            (if num_defaults \<noteq> 0
             then zip (drop split (zip arg_nodes args)) (zip default_nodes defaults)
             else [])
      in plain
         @ map (\<lambda>((an, a), (dn, d)). visiting (KeywordArg an dn) (visit_KeywordArg a d))
             default_args
         @ (if truthy vararg
            then [visiting (StarArg (Name (the vararg))) (visit_StarArg (name_arg (the vararg)))]
            else [])
         @ (if truthy kwarg
            then [visiting (DoubleStarArg (Name (the kwarg)))
                    (visit_DoubleStarArg (name_arg (the kwarg)))]
            else []))"

definition visit_arguments ::
  "node list \<Rightarrow> node list \<Rightarrow> string option \<Rightarrow> string option \<Rightarrow> act list \<Rightarrow> act list
   \<Rightarrow> act" where
  "visit_arguments arg_nodes default_nodes vararg kwarg args defaults s =
     (let items = arguments_list arg_nodes default_nodes vararg kwarg args defaults
      in when_do (items \<noteq> [])
           (write_expression_list items '', '' (\<not> parent_is is_Lambda s) False False) s)"

definition visit_keyword :: "string \<Rightarrow> act \<Rightarrow> act" where
  "visit_keyword arg val = seq [write_code (arg @ ''=''), val]"

definition visit_alias :: "string \<Rightarrow> string option \<Rightarrow> act" where
  "visit_alias name asname =
     seq [write_code name, if_some asname (\<lambda>a. write_code ('' as '' @ a))]"

section \<open>The traversal\<close>

definition with_node :: "node option \<Rightarrow> act option \<Rightarrow> (node \<times> act) option" where
  "with_node n a =
     (case n of None \<Rightarrow> None | Some x \<Rightarrow> (case a of None \<Rightarrow> None | Some y \<Rightarrow> Some (x, y)))"

text \<open>
  \<^verbatim>\<open>Decompiler.visit\<close> with the dispatch of \<^verbatim>\<open>ast.NodeVisitor.visit\<close> on the class of the
  node: \<open>visit node Plain\<close> is \<^verbatim>\<open>self.visit(node)\<close>. A class without a method
  (\<open>Suite\<close>, and the marker \<open>CallArgs\<close>) goes to \<^verbatim>\<open>generic_visit\<close>.
\<close>

primrec visit :: "node \<Rightarrow> via \<Rightarrow> act" where
  "visit (Module body) v =
     visiting (Module body)
       (visit_Module (map (\<lambda>x. visit x Plain) body))"
| "visit (Interactive body) v =
     visiting (Interactive body)
       (visit_Module (map (\<lambda>x. visit x Plain) body))"
| "visit (Expression body) v =
     visiting (Expression body)
       (visit_Expression (visit body Plain))"
| "visit (Suite body) v =
     visiting (Suite body)
       (generic_visit)"
| "visit (FunctionDef name args body decorator_list) v =
     visiting (FunctionDef name args body decorator_list)
       (visit_FunctionDef name (visit args Plain) (map (\<lambda>x. visit x Plain) body)
          (map (\<lambda>x. visit x Plain) decorator_list))"
| "visit (ClassDef name bases body decorator_list) v =
     visiting (ClassDef name bases body decorator_list)
       (visit_ClassDef name (map (\<lambda>x. visit x Plain) bases) (map (\<lambda>x. visit x Plain) body)
          (map (\<lambda>x. visit x Plain) decorator_list))"
| "visit (Return val) v =
     visiting (Return val)
       (visit_Return (map_option (\<lambda>x. visit x Plain) val))"
| "visit (Delete targets) v =
     visiting (Delete targets)
       (visit_Delete (map (\<lambda>x. visit x Plain) targets))"
| "visit (Assign targets val) v =
     visiting (Assign targets val)
       (visit_Assign (map (\<lambda>x. visit x Plain) targets) (visit val Plain))"
| "visit (AugAssign target oper val) v =
     visiting (AugAssign target oper val)
       (visit_AugAssign (visit target Plain)
          (visit_op (Operator_node oper) (operator_to_str oper)) (visit val Plain))"
| "visit (Print dest vals nl) v =
     visiting (Print dest vals nl)
       (visit_Print (map_option (\<lambda>x. visit x Plain) dest) (map (\<lambda>x. visit x Plain) vals) nl)"
| "visit (For target iter body orelse) v =
     visiting (For target iter body orelse)
       (visit_For (visit target Plain) (visit iter Plain) (map (\<lambda>x. visit x Plain) body)
          (map (\<lambda>x. visit x Plain) orelse))"
| "visit (While test body orelse) v =
     visiting (While test body orelse)
       (visit_While (visit test Plain) (map (\<lambda>x. visit x Plain) body) (map (\<lambda>x. visit x Plain) orelse))"
| "visit (If test body orelse) v =
     (if v = As_elif then
        visit_If ''elif '' (visit test Plain) (map (\<lambda>x. visit x Plain) body)
          (is_single is_If orelse) (hd (map (\<lambda>x. visit x As_elif) orelse))
          (map (\<lambda>x. visit x Plain) orelse)
      else
        visiting (If test body orelse)
          (visit_If ''if '' (visit test Plain) (map (\<lambda>x. visit x Plain) body)
             (is_single is_If orelse) (hd (map (\<lambda>x. visit x As_elif) orelse))
             (map (\<lambda>x. visit x Plain) orelse)))"
| "visit (With context_expr optional_vars body) v =
     (if v = As_with then
        seq [with_item (visit context_expr Plain) (map_option (\<lambda>x. visit x Plain) optional_vars),
             with_rest (is_single is_With body) (hd (map (\<lambda>x. visit x As_with) body))
               (map (\<lambda>x. visit x Plain) body)]
      else
        visiting (With context_expr optional_vars body)
          (visit_With (visit context_expr Plain) (map_option (\<lambda>x. visit x Plain) optional_vars)
             (is_single is_With body) (hd (map (\<lambda>x. visit x As_with) body))
             (map (\<lambda>x. visit x Plain) body)))"
| "visit (Raise type inst tback) v =
     visiting (Raise type inst tback)
       (visit_Raise (map_option (\<lambda>x. visit x Plain) type) (map_option (\<lambda>x. visit x Plain) inst)
          (map_option (\<lambda>x. visit x Plain) tback))"
| "visit (TryExcept body handlers orelse) v =
     visiting (TryExcept body handlers orelse)
       (visit_TryExcept (map (\<lambda>x. visit x Plain) body) (map (\<lambda>x. visit x Plain) handlers)
          (map (\<lambda>x. visit x Plain) orelse))"
| "visit (TryFinally body finalbody) v =
     visiting (TryFinally body finalbody)
       (visit_TryFinally (is_single is_TryExcept body) (map (\<lambda>x. visit x Plain) body)
          (map (\<lambda>x. visit x Plain) finalbody))"
| "visit (Assert test msg) v =
     visiting (Assert test msg)
       (visit_Assert (visit test Plain) (map_option (\<lambda>x. visit x Plain) msg))"
| "visit (Import names) v =
     visiting (Import names)
       (visit_Import (map (\<lambda>x. visit x Plain) names))"
| "visit (ImportFrom module names level) v =
     visiting (ImportFrom module names level)
       (visit_ImportFrom module names (map (\<lambda>x. visit x Plain) names) level)"
| "visit (Exec body globals locals) v =
     visiting (Exec body globals locals)
       (visit_Exec (visit body Plain) (map_option (\<lambda>x. visit x Plain) globals)
          (map_option (\<lambda>x. visit x Plain) locals))"
| "visit (Global names) v =
     visiting (Global names)
       (visit_Global names)"
| "visit (Expr val) v =
     visiting (Expr val)
       (visit_Expr (visit val Plain))"
| "visit (Pass) v =
     visiting (Pass)
       (visit_Pass)"
| "visit (Break) v =
     visiting (Break)
       (visit_Break)"
| "visit (Continue) v =
     visiting (Continue)
       (visit_Continue)"
| "visit (BoolOp oper vals) v =
     visiting (BoolOp oper vals)
       (visit_BoolOp (BoolOp oper vals) oper (map (\<lambda>x. visit x Plain) vals))"
| "visit (BinOp oid left oper right) v =
     visiting (BinOp oid left oper right)
       (visit_BinOp (BinOp oid left oper right) (visit left Plain) oper
          (visit right Plain))"
| "visit (UnaryOp oper operand) v =
     visiting (UnaryOp oper operand)
       (visit_UnaryOp (UnaryOp oper operand) oper (visit operand Plain))"
| "visit (Lambda args body) v =
     visiting (Lambda args body)
       (visit_Lambda args (visit args Plain) (visit body Plain))"
| "visit (IfExp oid test body orelse) v =
     visiting (IfExp oid test body orelse)
       (visit_IfExp (IfExp oid test body orelse) (visit test Plain) (visit body Plain)
          (visit orelse Plain))"
| "visit (Dict key_list vals) v =
     visiting (Dict key_list vals)
       (visit_Dict key_list vals (map (\<lambda>x. visit x Plain) key_list)
          (map (\<lambda>x. visit x Plain) vals))"
| "visit (Set_node elts) v =
     visiting (Set_node elts)
       (visit_Set (map (\<lambda>x. visit x Plain) elts))"
| "visit (ListComp elt generators) v =
     visiting (ListComp elt generators)
       (visit_comp (visit elt Plain) (map (\<lambda>x. visit x Plain) generators) ''['' '']'')"
| "visit (SetComp elt generators) v =
     visiting (SetComp elt generators)
       (visit_comp (visit elt Plain) (map (\<lambda>x. visit x Plain) generators) ''{'' ''}'')"
| "visit (DictComp k val generators) v =
     visiting (DictComp k val generators)
       (visit_DictComp k val (visit k Plain) (visit val Plain)
          (map (\<lambda>x. visit x Plain) generators))"
| "visit (GeneratorExp elt generators) v =
     visiting (GeneratorExp elt generators)
       (visit_comp (visit elt Plain) (map (\<lambda>x. visit x Plain) generators) ''('' '')'')"
| "visit (Yield val) v =
     visiting (Yield val)
       (visit_Yield (map_option (\<lambda>x. visit x Plain) val))"
| "visit (Compare left ops comparators) v =
     visiting (Compare left ops comparators)
       (visit_Compare (Compare left ops comparators) (visit left Plain) ops
          (map (\<lambda>x. visit x Plain) comparators))"
| "visit (Call func args keywords starargs kwargs) v =
     visiting (Call func args keywords starargs kwargs)
       (visit_Call (visit func Plain)
          (map (\<lambda>x. visit x Plain) args @ map (\<lambda>x. visit x Plain) keywords)
          (with_node starargs (map_option (\<lambda>x. visit x Plain) starargs))
          (with_node kwargs (map_option (\<lambda>x. visit x Plain) kwargs)))"
| "visit (Repr val) v =
     visiting (Repr val)
       (visit_Repr (visit val Plain))"
| "visit (Num repr_n) v =
     visiting (Num repr_n)
       (visit_Num repr_n)"
| "visit (Str sv) v =
     visiting (Str sv)
       (visit_Str sv)"
| "visit (Attribute val attr) v =
     visiting (Attribute val attr)
       (visit_Attribute (visit val Plain) attr)"
| "visit (Subscript val slice) v =
     visiting (Subscript val slice)
       (visit_Subscript (visit val Plain) (visit slice Plain))"
| "visit (Name ident) v =
     visiting (Name ident)
       (visit_Name ident)"
| "visit (List_node elts) v =
     visiting (List_node elts)
       (visit_List (map (\<lambda>x. visit x Plain) elts))"
| "visit (Tuple elts) v =
     visiting (Tuple elts)
       (visit_Tuple (map (\<lambda>x. visit x Plain) elts))"
| "visit (Ellipsis) v =
     visiting (Ellipsis)
       (visit_Ellipsis)"
| "visit (Slice lower upper step) v =
     visiting (Slice lower upper step)
       (visit_Slice (map_option (\<lambda>x. visit x Plain) lower) (map_option (\<lambda>x. visit x Plain) upper)
          (map_option (\<lambda>x. visit x Plain) step))"
| "visit (ExtSlice dims) v =
     visiting (ExtSlice dims)
       (visit_ExtSlice (map (\<lambda>x. visit x Plain) dims))"
| "visit (Index val) v =
     visiting (Index val)
       (visit_Index (visit val Plain))"
| "visit (comprehension target iter ifs) v =
     visiting (comprehension target iter ifs)
       (visit_comprehension (visit target Plain) (visit iter Plain)
          (map (\<lambda>x. visit x Plain) ifs))"
| "visit (ExceptHandler type name body) v =
     visiting (ExceptHandler type name body)
       (visit_ExceptHandler (map_option (\<lambda>x. visit x Plain) type) (map_option (\<lambda>x. visit x Plain) name)
          (map (\<lambda>x. visit x Plain) body))"
| "visit (arguments args vararg kwarg defaults) v =
     visiting (arguments args vararg kwarg defaults)
       (visit_arguments args defaults vararg kwarg (map (\<lambda>x. visit x Plain) args)
          (map (\<lambda>x. visit x Plain) defaults))"
| "visit (keyword_node arg val) v =
     visiting (keyword_node arg val)
       (visit_keyword arg (visit val Plain))"
| "visit (alias_node name asname) v =
     visiting (alias_node name asname)
       (visit_alias name asname)"
| "visit (KeyValuePair k val) v =
     visiting (KeyValuePair k val)
       (visit_KeyValuePair (visit k Plain) (visit val Plain))"
| "visit (StarArg arg) v =
     visiting (StarArg arg)
       (visit_StarArg (visit arg Plain))"
| "visit (DoubleStarArg arg) v =
     visiting (DoubleStarArg arg)
       (visit_DoubleStarArg (visit arg Plain))"
| "visit (KeywordArg arg val) v =
     visiting (KeywordArg arg val)
       (visit_KeywordArg (visit arg Plain) (visit val Plain))"
| "visit (CallArgs) v =
     visiting (CallArgs)
       (generic_visit)"
| "visit (Boolop_node oper) v = visit_op (Boolop_node oper) (boolop_to_str oper)"
| "visit (Operator_node oper) v = visit_op (Operator_node oper) (operator_to_str oper)"
| "visit (Unaryop_node oper) v = visit_op (Unaryop_node oper) (unaryop_to_str oper)"
| "visit (Cmpop_node oper) v = visit_op (Cmpop_node oper) (cmpop_to_str oper)"

text \<open>\<^verbatim>\<open>Decompiler.__init__\<close> and \<^verbatim>\<open>decompile\<close>.\<close>

definition init :: "int \<Rightarrow> int \<Rightarrow> state" where
  "init indentation_arg line_length =
     \<lparr>lines = [], current_line = [], current_indentation = 0, node_stack = [],
      indentation = indentation_arg, max_line_length = line_length,
      has_unicode_literals = False, depth = 0, markers = 0, trail = []\<rparr>"

definition decompile :: "node \<Rightarrow> int \<Rightarrow> int \<Rightarrow> error + string" where
  "decompile ast indentation_arg line_length =
     (case visit ast Plain (init indentation_arg line_length) of
        Inl (e, s) \<Rightarrow> Inl e
      | Inr s \<Rightarrow> Inr (concat (lines s)))"

section \<open>Unfolding the model\<close>

lemmas buffer_defs = then_act_def when_do_def if_some_def raise_def try_finally_def
  write_code_def write_indentation_def write_newline_def add_indentation_def
  parenthesize_if_def write_suite_def write_else_def

lemmas stack_defs = visiting_def enter_def leave_def log_stack_def push_marker_def
  pop_marker_def get_parent_node_def parent_is_def

lemma precedence_of_operator_ge: "4 \<le> precedence_of_operator oper"
  by (cases oper) simp_all

section \<open>Relations that every visit keeps\<close>

text \<open>
  Many properties of the traversal say that the state a method leaves, whether it
  returns or raises, is related to the state it started in: the node stack is the
  same, the completed lines have only grown. \<open>keeps rel a\<close> says so of one action;
  \<open>closed_rel rel\<close> lists what the relation must allow: every primitive step of the
  buffer, and every bracket of the source (\<^verbatim>\<open>visit\<close>, the marker of \<^verbatim>\<open>visit_Call\<close>,
  \<^verbatim>\<open>add_indentation\<close>, the reset of \<^verbatim>\<open>write_expression_list\<close>) taken as a whole.
  Every visit then keeps every such relation (\<open>keeps_visit\<close>).
\<close>

definition keeps :: "(state \<Rightarrow> state \<Rightarrow> bool) \<Rightarrow> act \<Rightarrow> bool" where
  "keeps rel a = (\<forall>s. rel s (state_of (a s)))"

definition closed_rel :: "(state \<Rightarrow> state \<Rightarrow> bool) \<Rightarrow> bool" where
  "closed_rel rel =
     ((\<forall>s. rel s s)
      \<and> (\<forall>s t u. rel s t \<longrightarrow> rel t u \<longrightarrow> rel s u)
      \<and> (\<forall>s c. rel s (s\<lparr>current_line := current_line s @ [c]\<rparr>))
      \<and> (\<forall>s. rel s (s\<lparr>lines := lines s @ [concat (current_line s) @ newline],
                         current_line := []\<rparr>))
      \<and> (\<forall>s n t. rel (enter n s) t \<longrightarrow> rel s (leave t))
      \<and> (\<forall>s t. rel (push_marker s) t \<longrightarrow> rel s (pop_marker t))
      \<and> (\<forall>s t. rel (s\<lparr>current_indentation := current_indentation s + indentation s\<rparr>) t
             \<longrightarrow> rel s (t\<lparr>current_indentation := current_indentation t - indentation t\<rparr>))
      \<and> (\<forall>s t. rel s t \<longrightarrow> rel s (reset_state s t))
      \<and> (\<forall>s. rel s (s\<lparr>has_unicode_literals := True\<rparr>)))"

lemmas closed_relD = closed_rel_def [THEN iffD1]

lemmas closed_refl = closed_relD [THEN conjunct1, THEN spec]

lemmas closed_trans =
  closed_relD [THEN conjunct2, THEN conjunct1, THEN spec, THEN spec, THEN spec, THEN mp, THEN mp]

lemmas closed_write =
  closed_relD [THEN conjunct2, THEN conjunct2, THEN conjunct1, THEN spec, THEN spec]

lemmas closed_newline =
  closed_relD [THEN conjunct2, THEN conjunct2, THEN conjunct2, THEN conjunct1, THEN spec]

lemmas closed_leave =
  closed_relD [THEN conjunct2, THEN conjunct2, THEN conjunct2, THEN conjunct2, THEN conjunct1,
    THEN spec, THEN spec, THEN spec, THEN mp]

lemmas closed_pop =
  closed_relD [THEN conjunct2, THEN conjunct2, THEN conjunct2, THEN conjunct2, THEN conjunct2,
    THEN conjunct1, THEN spec, THEN spec, THEN mp]

lemmas closed_dedent =
  closed_relD [THEN conjunct2, THEN conjunct2, THEN conjunct2, THEN conjunct2, THEN conjunct2,
    THEN conjunct2, THEN conjunct1, THEN spec, THEN spec, THEN mp]

lemmas closed_reset =
  closed_relD [THEN conjunct2, THEN conjunct2, THEN conjunct2, THEN conjunct2, THEN conjunct2,
    THEN conjunct2, THEN conjunct2, THEN conjunct1, THEN spec, THEN spec, THEN mp]

lemmas closed_flag =
  closed_relD [THEN conjunct2, THEN conjunct2, THEN conjunct2, THEN conjunct2, THEN conjunct2,
    THEN conjunct2, THEN conjunct2, THEN conjunct2, THEN spec]


lemma keepsD: "keeps rel a \<Longrightarrow> rel s (state_of (a s))"
  by (simp add: keeps_def)

lemma state_of_Inr [simp]: "state_of (Inr s) = s"
  by (simp add: state_of_def)

lemma state_of_Inl [simp]: "state_of (Inl (e, s)) = s"
  by (simp add: state_of_def)

lemma state_of_try_finally: "state_of (try_finally a f s) = f (state_of (a s))"
  by (cases "a s") (auto simp: try_finally_def)

lemma keeps_Inr: "closed_rel rel \<Longrightarrow> keeps rel Inr"
  by (simp add: keeps_def closed_refl)

lemma keeps_raise: "closed_rel rel \<Longrightarrow> keeps rel (raise e)"
  by (simp add: keeps_def raise_def closed_refl)

lemma keeps_write_code: "closed_rel rel \<Longrightarrow> keeps rel (write_code c)"
  by (simp add: keeps_def write_code_def closed_write)

lemma keeps_write_indentation: "closed_rel rel \<Longrightarrow> keeps rel write_indentation"
  by (simp add: keeps_def write_indentation_def write_code_def closed_write)

lemma keeps_write_newline: "closed_rel rel \<Longrightarrow> keeps rel write_newline"
  by (simp add: keeps_def write_newline_def closed_newline)

lemma keeps_then_act:
  assumes "closed_rel rel" "keeps rel a" "keeps rel b"
  shows "keeps rel (then_act a b)"
  unfolding keeps_def
proof
  fix s
  show "rel s (state_of (then_act a b s))"
  proof (cases "a s")
    case (Inl x)
    then have "state_of (then_act a b s) = state_of (a s)"
      by (simp add: then_act_def)
    then show ?thesis using assms(2) by (simp add: keepsD)
  next
    case (Inr t)
    then have "rel s t" using keepsD [OF assms(2), of s] by simp
    moreover have "rel t (state_of (b t))" using assms(3) by (rule keepsD)
    moreover have "then_act a b s = b t" using Inr by (simp add: then_act_def)
    ultimately show ?thesis using closed_trans [OF assms(1)] by simp
  qed
qed

lemma keeps_seq:
  "closed_rel rel \<Longrightarrow> \<forall>a\<in>set acts. keeps rel a \<Longrightarrow> keeps rel (seq acts)"
  by (induction acts) (simp_all add: keeps_Inr keeps_then_act)

lemma keeps_when_do: "closed_rel rel \<Longrightarrow> keeps rel a \<Longrightarrow> keeps rel (when_do c a)"
  by (simp add: when_do_def keeps_Inr)

lemma keeps_if_some:
  "closed_rel rel \<Longrightarrow> \<forall>x\<in>set_option v. keeps rel (f x) \<Longrightarrow> keeps rel (if_some v f)"
  by (cases v) (simp_all add: if_some_def keeps_Inr)

lemma keeps_visiting:
  assumes "closed_rel rel" "keeps rel body"
  shows "keeps rel (visiting n body)"
  unfolding keeps_def visiting_def state_of_try_finally
proof
  fix s
  show "rel s (leave (state_of (body (enter n s))))"
    using assms(1) keepsD [OF assms(2)] by (rule closed_leave)
qed

lemma keeps_add_indentation:
  assumes "closed_rel rel" "keeps rel body"
  shows "keeps rel (add_indentation body)"
  unfolding keeps_def add_indentation_def state_of_try_finally
proof
  fix s
  show "rel s ((state_of (body (s\<lparr>current_indentation := current_indentation s + indentation s\<rparr>)))
           \<lparr>current_indentation :=
              current_indentation (state_of (body (s\<lparr>current_indentation := current_indentation s + indentation s\<rparr>)))
              - indentation (state_of (body (s\<lparr>current_indentation := current_indentation s + indentation s\<rparr>)))\<rparr>)"
    using assms(1) keepsD [OF assms(2)] by (rule closed_dedent)
qed

lemma keeps_marker:
  assumes "closed_rel rel" "keeps rel body"
  shows "keeps rel (\<lambda>s. try_finally body pop_marker (push_marker s))"
  unfolding keeps_def state_of_try_finally
proof
  fix s
  show "rel s (pop_marker (state_of (body (push_marker s))))"
    using assms(1) keepsD [OF assms(2)] by (rule closed_pop)
qed

lemma keeps_parenthesize_if:
  "closed_rel rel \<Longrightarrow> keeps rel body \<Longrightarrow> keeps rel (parenthesize_if c body)"
  by (simp add: parenthesize_if_def keeps_then_act keeps_Inr keeps_write_code)


lemma keepsI: "(\<And>s. rel s (state_of (a s))) \<Longrightarrow> keeps rel a"
  by (simp add: keeps_def)

lemma keeps_write_suite:
  "closed_rel rel \<Longrightarrow> \<forall>a\<in>set acts. keeps rel a \<Longrightarrow> keeps rel (write_suite acts)"
  by (simp add: write_suite_def keeps_add_indentation keeps_seq)

lemmas keeps_basic = keeps_then_act keeps_Inr keeps_write_code keeps_write_indentation
  keeps_write_newline keeps_when_do keeps_if_some keeps_seq keeps_write_suite
  keeps_parenthesize_if keeps_add_indentation keeps_visiting keeps_raise

lemma keeps_write_else:
  "closed_rel rel \<Longrightarrow> \<forall>a\<in>set acts. keeps rel a \<Longrightarrow> keeps rel (write_else acts)"
  by (simp add: write_else_def keeps_basic)

definition attempt_state :: "(error \<times> state) + (bool \<times> state) \<Rightarrow> state" where
  "attempt_state r = (case r of Inl (e, t) \<Rightarrow> t | Inr (b, t) \<Rightarrow> t)"

lemma inline_attempt_rel:
  assumes c: "closed_rel rel"
  shows "\<forall>a\<in>set acts. keeps rel a \<Longrightarrow>
         rel s (attempt_state (inline_attempt acts sep allow first s))"
proof (induction acts arbitrary: first s)
  case Nil
  show ?case by (simp add: attempt_state_def closed_refl [OF c])
next
  case (Cons a acts)
  define s1 where "s1 = (if first then s else s\<lparr>current_line := current_line s @ [sep]\<rparr>)"
  have r1: "rel s s1"
    by (simp add: s1_def closed_refl [OF c] closed_write [OF c])
  have w: "(if first then Inr s else write_code sep s) = Inr s1"
    by (simp add: s1_def write_code_def)
  have ka: "keeps rel a" using Cons.prems by simp
  show ?case
  proof (cases "a s1")
    case (Inl x)
    then have "attempt_state (inline_attempt (a # acts) sep allow first s) = state_of (a s1)"
      using w by (cases x) (simp add: attempt_state_def)
    then show ?thesis using closed_trans [OF c r1 keepsD [OF ka]] by simp
  next
    case (Inr s2)
    have r2: "rel s s2" using closed_trans [OF c r1 keepsD [OF ka, of s1]] Inr by simp
    show ?thesis
    proof (cases "allow \<and> current_line_length s2 > max_line_length s2")
      case True
      then have "attempt_state (inline_attempt (a # acts) sep allow first s) = s2"
        using w Inr by (simp add: attempt_state_def)
      then show ?thesis using r2 by simp
    next
      case False
      then have "inline_attempt (a # acts) sep allow first s =
                 inline_attempt acts sep allow False s2"
        using w Inr by auto
      moreover have "rel s2 (attempt_state (inline_attempt acts sep allow False s2))"
        using Cons.IH Cons.prems by simp
      ultimately show ?thesis using closed_trans [OF c r2] by simp
    qed
  qed
qed

lemma keeps_multiline_items:
  "closed_rel rel \<Longrightarrow> \<forall>a\<in>set acts. keeps rel a \<Longrightarrow>
   keeps rel (multiline_items acts sep fin)"
  by (induction acts) (simp_all add: keeps_basic)

lemma keeps_write_multiline:
  "closed_rel rel \<Longrightarrow> \<forall>a\<in>set acts. keeps rel a \<Longrightarrow>
   keeps rel (write_multiline acts sep np fin)"
  by (simp add: write_multiline_def keeps_basic keeps_multiline_items)

lemma keeps_write_expression_list:
  assumes c: "closed_rel rel" and k: "\<forall>a\<in>set acts. keeps rel a"
  shows "keeps rel (write_expression_list acts sep allow np fin)"
proof (rule keepsI)
  fix s
  have a: "rel s (attempt_state (inline_attempt acts sep allow True s))"
    using k by (rule inline_attempt_rel [OF c])
  show "rel s (state_of (write_expression_list acts sep allow np fin s))"
  proof (cases "inline_attempt acts sep allow True s")
    case (Inl x)
    then show ?thesis using a
      by (cases x) (simp add: write_expression_list_def attempt_state_def)
  next
    case (Inr y)
    obtain b t where y: "y = (b, t)" by (cases y)
    have st: "rel s t" using a Inr y by (simp add: attempt_state_def)
    show ?thesis
    proof (cases b)
      case False
      then show ?thesis using st Inr y by (simp add: write_expression_list_def)
    next
      case True
      have "rel s (reset_state s t)" using c st by (rule closed_reset)
      moreover have "rel (reset_state s t)
          (state_of (write_multiline acts sep np fin (reset_state s t)))"
        using keeps_write_multiline [OF c k] by (rule keepsD)
      ultimately show ?thesis using True Inr y closed_trans [OF c]
        by (simp add: write_expression_list_def)
    qed
  qed
qed


lemma keeps_visit_op: "closed_rel rel \<Longrightarrow> keeps rel (visit_op n str)"
  by (simp add: visit_op_def keeps_basic)

lemma keeps_visit_BoolOp:
  "closed_rel rel \<Longrightarrow> \<forall>a\<in>set vals. keeps rel a \<Longrightarrow> keeps rel (visit_BoolOp node oper vals)"
  by (rule keepsI)
    (simp add: visit_BoolOp_def Let_def keepsD keeps_basic keeps_write_expression_list)

lemma parent_case:
  "(\<And>pi pl po pr. P (A pi pl po pr)) \<Longrightarrow> P B \<Longrightarrow>
   P (case p of Some (BinOp pi pl po pr) \<Rightarrow> A pi pl po pr | _ \<Rightarrow> B)"
  by (cases p; cases "the p") simp_all

lemma keeps_visit_BinOp:
  assumes c: "closed_rel rel" and l: "keeps rel left" and r: "keeps rel right"
  shows "keeps rel (visit_BinOp node left oper right)"
proof (rule keepsI)
  fix s
  have b: "rel s (state_of (parenthesize_if x
             (seq [left, write_code '' '', visit_op y z,
                   write_code '' '', right]) s))" for x y z
    by (rule keepsD) (simp add: keeps_basic keeps_visit_op c l r)
  have e: "rel s (state_of (raise AttributeError s))"
    by (rule keepsD) (simp add: keeps_basic c)
  show "rel s (state_of (visit_BinOp node left oper right s))"
    unfolding visit_BinOp_def Let_def
    by (simp add: b e parent_case [where P = "\<lambda>x. rel s (state_of x)"] del: seq.simps)
qed

lemmas keeps_more = keeps_basic keeps_visit_op keeps_write_expression_list keeps_write_else

lemma keeps_visit_UnaryOp:
  "closed_rel rel \<Longrightarrow> keeps rel operand \<Longrightarrow> keeps rel (visit_UnaryOp node oper operand)"
  by (rule keepsI) (simp add: visit_UnaryOp_def Let_def keepsD keeps_more)

lemma keeps_lambda_space: "closed_rel rel \<Longrightarrow> keeps rel (lambda_space args_node)"
  by (cases args_node) (simp_all add: lambda_space_def keeps_more)

lemma keeps_visit_Lambda:
  "closed_rel rel \<Longrightarrow> keeps rel args \<Longrightarrow> keeps rel body \<Longrightarrow>
   keeps rel (visit_Lambda args_node args body)"
  by (rule keepsI) (simp add: visit_Lambda_def Let_def keepsD keeps_more keeps_lambda_space)

lemma keeps_visit_IfExp:
  "closed_rel rel \<Longrightarrow> keeps rel test \<Longrightarrow> keeps rel body \<Longrightarrow> keeps rel orelse \<Longrightarrow>
   keeps rel (visit_IfExp node test body orelse)"
  by (rule keepsI) (simp add: visit_IfExp_def Let_def keepsD keeps_more)

lemma keeps_visit_Yield:
  "closed_rel rel \<Longrightarrow> \<forall>a\<in>set_option val. keeps rel a \<Longrightarrow> keeps rel (visit_Yield val)"
  by (rule keepsI) (simp add: visit_Yield_def keepsD keeps_more)

lemma keeps_compare_ops:
  assumes c: "closed_rel rel" and k: "\<forall>a\<in>set comparators. keeps rel a"
  shows "keeps rel (seq (map (\<lambda>(oper, expr).
                             seq [write_code '' '',
                                  visit_op (Cmpop_node oper) (cmpop_to_str oper),
                                  write_code '' '', expr])
                        (zip ops comparators)))"
proof (rule keeps_seq [OF c], rule ballI)
  fix a
  assume "a \<in> set (map (\<lambda>(oper, expr).
                             seq [write_code '' '',
                                  visit_op (Cmpop_node oper) (cmpop_to_str oper),
                                  write_code '' '', expr])
                        (zip ops comparators))"
  then obtain oper expr where m: "(oper, expr) \<in> set (zip ops comparators)"
    and a: "a = seq [write_code '' '', visit_op (Cmpop_node oper) (cmpop_to_str oper),
                     write_code '' '', expr]"
    by auto
  have "expr \<in> set comparators" using m by (rule set_zip_rightD)
  then show "keeps rel a" using k by (simp add: a keeps_basic keeps_visit_op c)
qed

lemma keeps_visit_Compare:
  "closed_rel rel \<Longrightarrow> keeps rel left \<Longrightarrow> \<forall>a\<in>set comparators. keeps rel a \<Longrightarrow>
   keeps rel (visit_Compare node left ops comparators)"
  by (rule keepsI)
    (simp add: visit_Compare_def Let_def keepsD keeps_basic keeps_compare_ops
       del: seq.simps)

lemma keeps_visit_Str: "closed_rel rel \<Longrightarrow> keeps rel (visit_Str sv)"
  by (rule keepsI) (simp add: visit_Str_def keepsD keeps_more del: seq.simps)

lemma keeps_visit_Tuple:
  "closed_rel rel \<Longrightarrow> \<forall>a\<in>set elts. keeps rel a \<Longrightarrow> keeps rel (visit_Tuple elts)"
  by (rule keepsI) (cases elts; simp add: visit_Tuple_def Let_def keepsD keeps_more)

lemma zip_drop_zip_members:
  "((an, a), (dn, d)) \<in> set (zip (drop k (zip xs acts)) (zip ys ds)) \<Longrightarrow>
   a \<in> set acts \<and> d \<in> set ds"
  by (meson set_zip_leftD set_zip_rightD in_set_dropD)

lemma zip_zip_members:
  "((an, a), (dn, d)) \<in> set (zip (zip xs acts) (zip ys ds)) \<Longrightarrow> a \<in> set acts \<and> d \<in> set ds"
  by (meson set_zip_leftD set_zip_rightD)

lemma keeps_keyword_arg:
  assumes "closed_rel rel" "\<forall>a\<in>set acts. keeps rel a" "\<forall>a\<in>set ds. keeps rel a"
    and "((an, ac), (dn, dc)) \<in> set (zip (drop k (zip xs acts)) (zip ys ds))"
  shows "keeps rel (visiting (KeywordArg an dn) (visit_KeywordArg ac dc))"
  using assms(1,2,3) zip_drop_zip_members [OF assms(4)]
  by (simp add: visit_KeywordArg_def keeps_basic)

lemma keeps_arguments_list:
  assumes "closed_rel rel" "\<forall>a\<in>set args. keeps rel a" "\<forall>a\<in>set defaults. keeps rel a"
  shows "\<forall>a\<in>set (arguments_list arg_nodes default_nodes vararg kwarg args defaults).
           keeps rel a"
  using assms
  by (auto simp: arguments_list_def Let_def keeps_more visit_StarArg_def
      visit_DoubleStarArg_def name_arg_def visit_Name_def
      dest: in_set_takeD intro: keeps_keyword_arg)

lemma keeps_visit_arguments:
  assumes c: "closed_rel rel" and a: "\<forall>a\<in>set args. keeps rel a"
    and d: "\<forall>a\<in>set defaults. keeps rel a"
  shows "keeps rel (visit_arguments arg_nodes default_nodes vararg kwarg args defaults)"
proof (rule keepsI)
  fix s
  let ?items = "arguments_list arg_nodes default_nodes vararg kwarg args defaults"
  have "keeps rel (write_expression_list ?items '', '' b False False)" for b
    using c keeps_arguments_list [OF c a d] by (rule keeps_write_expression_list)
  then have "keeps rel (when_do (?items \<noteq> [])
                (write_expression_list ?items '', '' b False False))" for b
    using c by (simp add: keeps_when_do)
  then show "rel s (state_of
      (visit_arguments arg_nodes default_nodes vararg kwarg args defaults s))"
    unfolding visit_arguments_def Let_def by (rule keepsD)
qed

lemma keeps_write_import_from:
  "closed_rel rel \<Longrightarrow> \<forall>a\<in>set names. keeps rel a \<Longrightarrow>
   keeps rel (write_import_from module names level)"
  by (simp add: write_import_from_def keeps_more)

lemma keeps_visit_ImportFrom:
  assumes c: "closed_rel rel" and k: "\<forall>a\<in>set names. keeps rel a"
  shows "keeps rel (visit_ImportFrom module alias_nodes names level)"
proof (rule keepsI)
  fix s
  have w: "rel t (state_of (write_import_from m names level t))" for t m
    using keeps_write_import_from [OF c k] by (rule keepsD)
  have f: "rel s (state_of (write_import_from m names level
             (s\<lparr>has_unicode_literals := True\<rparr>)))" for m
    using closed_trans [OF c closed_flag [OF c] w] .
  show "rel s (state_of (visit_ImportFrom module alias_nodes names level s))"
    by (cases "any_unicode_literals alias_nodes")
      (simp_all add: visit_ImportFrom_def w f raise_def closed_refl [OF c])
qed

lemma keeps_key_value_pair:
  assumes "closed_rel rel" "\<forall>a\<in>set ks. keeps rel a" "\<forall>a\<in>set vals. keeps rel a"
    and "((kn, k), (vn, v)) \<in> set (zip (zip key_nodes ks) (zip value_nodes vals))"
  shows "keeps rel (visiting (KeyValuePair kn vn) (visit_KeyValuePair k v))"
  using assms(1,2,3) zip_zip_members [OF assms(4)]
  by (simp add: visit_KeyValuePair_def keeps_basic)

lemma keeps_key_value_pairs:
  assumes "closed_rel rel" "\<forall>a\<in>set ks. keeps rel a" "\<forall>a\<in>set vals. keeps rel a"
  shows "\<forall>a\<in>set (key_value_pairs key_nodes value_nodes ks vals). keeps rel a"
  using assms by (auto simp: key_value_pairs_def intro: keeps_key_value_pair)

lemma keeps_call_args:
  assumes "closed_rel rel" "\<forall>a\<in>set args. keeps rel a"
    "\<forall>(n, a)\<in>set_option starargs. keeps rel a" "\<forall>(n, a)\<in>set_option kwargs. keeps rel a"
  shows "\<forall>a\<in>set (call_args args starargs kwargs). keeps rel a"
  using assms
  by (auto simp: call_args_def keeps_more visit_StarArg_def visit_DoubleStarArg_def
      split: option.splits)

lemma keeps_visit_Call:
  assumes "closed_rel rel" "keeps rel func" "\<forall>a\<in>set args. keeps rel a"
    "\<forall>(n, a)\<in>set_option starargs. keeps rel a" "\<forall>(n, a)\<in>set_option kwargs. keeps rel a"
  shows "keeps rel (visit_Call func args starargs kwargs)"
  using assms keeps_call_args [OF assms(1,3,4,5)]
  by (simp add: visit_Call_def keeps_more keeps_marker)

lemma is_singleD: "is_single P xs \<Longrightarrow> \<exists>x. xs = [x]"
  by (cases xs; cases "tl xs") (simp_all add: is_single_def)

lemma keeps_visit_If:
  "closed_rel rel \<Longrightarrow> keeps rel test \<Longrightarrow> \<forall>a\<in>set body. keeps rel a \<Longrightarrow>
   (chain \<longrightarrow> keeps rel next_round) \<Longrightarrow> \<forall>a\<in>set orelse. keeps rel a \<Longrightarrow>
   keeps rel (visit_If kw test body chain next_round orelse)"
  by (simp add: visit_If_def keeps_more)

lemma keeps_with_item:
  "closed_rel rel \<Longrightarrow> keeps rel ce \<Longrightarrow> \<forall>a\<in>set_option ov. keeps rel a \<Longrightarrow>
   keeps rel (with_item ce ov)"
  by (simp add: with_item_def keeps_more)

lemma keeps_with_rest:
  "closed_rel rel \<Longrightarrow> (chain \<longrightarrow> keeps rel next_item) \<Longrightarrow> \<forall>a\<in>set body. keeps rel a \<Longrightarrow>
   keeps rel (with_rest chain next_item body)"
  by (simp add: with_rest_def keeps_more)

lemma keeps_visit_TryFinally:
  "closed_rel rel \<Longrightarrow> (single \<longrightarrow> keeps rel (hd body)) \<Longrightarrow> \<forall>a\<in>set body. keeps rel a \<Longrightarrow>
   \<forall>a\<in>set finalbody. keeps rel a \<Longrightarrow> keeps rel (visit_TryFinally single body finalbody)"
  by (simp add: visit_TryFinally_def keeps_more)

lemma keeps_visit_Global: "closed_rel rel \<Longrightarrow> keeps rel (visit_Global names)"
  by (simp add: visit_Global_def keeps_more visit_Name_def)

lemma keeps_visit_Raise:
  "closed_rel rel \<Longrightarrow> \<forall>a\<in>set_option t. keeps rel a \<Longrightarrow> \<forall>a\<in>set_option i. keeps rel a \<Longrightarrow>
   \<forall>a\<in>set_option b. keeps rel a \<Longrightarrow> keeps rel (visit_Raise t i b)"
  by (cases t; cases i; cases b) (simp_all add: visit_Raise_def present_def keeps_more)


lemma keeps_hd_single:
  "is_single P xs \<Longrightarrow> (\<And>x. x \<in> set xs \<Longrightarrow> keeps rel (f x)) \<Longrightarrow> keeps rel (hd (map f xs))"
  by (drule is_singleD) auto

lemma set_option_with_node:
  "(n, a) \<in> set_option (with_node x (map_option f x)) \<Longrightarrow> n \<in> set_option x \<and> a = f n"
  by (cases x) (simp_all add: with_node_def)

lemma ball_set_option_map:
  "(\<forall>a\<in>set_option (map_option g v). P a) = (\<forall>x. v = Some x \<longrightarrow> P (g x))"
  by (cases v) auto

lemmas handler_defs = visit_Module_def visit_Expression_def generic_visit_def
  visit_FunctionDef_def write_decorators_def visit_ClassDef_def visit_For_def visit_While_def
  visit_With_def visit_TryExcept_def visit_Return_def visit_Delete_def visit_Assign_def
  visit_AugAssign_def visit_Print_def visit_Assert_def visit_Import_def visit_Exec_def
  visit_Expr_def visit_Pass_def visit_Break_def visit_Continue_def visit_Dict_def
  visit_Set_def visit_comp_def visit_DictComp_def visit_StarArg_def visit_DoubleStarArg_def
  visit_KeywordArg_def visit_KeyValuePair_def visit_Repr_def visit_Num_def visit_Attribute_def
  visit_Subscript_def visit_Name_def visit_List_def visit_Ellipsis_def visit_Slice_def
  visit_ExtSlice_def visit_Index_def visit_comprehension_def visit_ExceptHandler_def
  visit_keyword_def visit_alias_def

lemma keeps_visit: "closed_rel rel \<Longrightarrow> keeps rel (visit n v)"
proof (induction n arbitrary: v)
  case (Dict key_list vals)
  have "\<forall>a\<in>set (key_value_pairs key_list vals (map (\<lambda>x. visit x Plain) key_list)
                    (map (\<lambda>x. visit x Plain) vals)). keeps rel a"
    using Dict by (intro keeps_key_value_pairs) auto
  then have "keeps rel (write_expression_list
                (key_value_pairs key_list vals (map (\<lambda>x. visit x Plain) key_list)
                   (map (\<lambda>x. visit x Plain) vals)) '', '' True False True)"
    using Dict.prems by (intro keeps_write_expression_list)
  then show ?case using Dict.prems
    by (simp add: visit_Dict_def keeps_basic)
next
  case (Call func args kws starargs kwargs)
  have "keeps rel (visit_Call (visit func Plain)
          (map (\<lambda>x. visit x Plain) args @ map (\<lambda>x. visit x Plain) kws)
          (with_node starargs (map_option (\<lambda>x. visit x Plain) starargs))
          (with_node kwargs (map_option (\<lambda>x. visit x Plain) kwargs)))"
    using Call by (intro keeps_visit_Call) (auto dest!: set_option_with_node)
  then show ?case using Call.prems by (simp add: keeps_more)
next
  case (If test body orelse)
  then show ?case
    by (simp add: keeps_more keeps_visit_If keeps_hd_single)
next
  case (With context_expr optional_vars body)
  have i: "keeps rel (with_item (visit context_expr Plain)
                        (map_option (\<lambda>x. visit x Plain) optional_vars))"
    using With by (intro keeps_with_item) auto
  have r: "keeps rel (with_rest (is_single is_With body)
                        (hd (map (\<lambda>x. visit x As_with) body))
                        (map (\<lambda>x. visit x Plain) body))"
    using With by (intro keeps_with_rest impI keeps_hd_single) auto
  show ?case using With.prems i r
    by (simp add: keeps_basic visit_With_def)
next
  case (TryFinally body finalbody)
  then show ?case
    by (simp add: keeps_more keeps_visit_TryFinally keeps_hd_single)
qed (simp_all add: handler_defs keeps_more ball_set_option_map keeps_visit_BoolOp keeps_visit_BinOp
      keeps_visit_UnaryOp keeps_visit_Lambda keeps_visit_IfExp keeps_visit_Yield
      keeps_visit_Compare keeps_visit_Str keeps_visit_Tuple keeps_visit_arguments
      keeps_visit_ImportFrom keeps_visit_Global keeps_visit_Raise)


section \<open>What a visit leaves unchanged\<close>

text \<open>
  \<open>frame s t\<close>: from \<open>s\<close> to \<open>t\<close> the node stack, the indentation and the configuration
  are the same, the flag \<^verbatim>\<open>has_unicode_literals\<close> has not been cleared, and the completed
  lines of \<open>s\<close> are still the first lines of \<open>t\<close>. Every visit keeps it, also when it
  raises.
\<close>

definition frame :: "state \<Rightarrow> state \<Rightarrow> bool" where
  "frame s t =
     (node_stack t = node_stack s \<and> depth t = depth s \<and> markers t = markers s
      \<and> current_indentation t = current_indentation s \<and> indentation t = indentation s
      \<and> max_line_length t = max_line_length s
      \<and> (has_unicode_literals s \<longrightarrow> has_unicode_literals t)
      \<and> prefix (lines s) (lines t))"

lemma prefix_take_length: "prefix xs ys \<Longrightarrow> take (length xs) ys = xs"
  by (auto simp: prefix_def)

lemma closed_frame: "closed_rel frame"
  unfolding closed_rel_def
  by (auto simp: frame_def enter_def leave_def log_stack_def push_marker_def pop_marker_def
      reset_state_def prefix_take_length intro: prefix_order.trans)

lemma frame_visit: "frame s (state_of (visit n v s))"
  using keeps_visit [OF closed_frame] by (rule keepsD)

lemma same_stack: "keeps frame a \<Longrightarrow> a s = Inr t \<Longrightarrow> node_stack t = node_stack s"
  using keepsD [of frame a s] by (simp add: frame_def)

lemma seq_cong_stack:
  assumes "list_all2 (\<lambda>a b. \<forall>t. node_stack t = K \<longrightarrow> a t = b t) as bs"
    and "\<forall>a\<in>set as. keeps frame a" and "node_stack s = K"
  shows "seq as s = seq bs s"
  using assms
proof (induction as bs arbitrary: s rule: list_all2_induct)
  case Nil
  then show ?case by simp
next
  case (Cons a as b bs)
  have ab: "a s = b s" using Cons.hyps(1) Cons.prems(2) by simp
  show ?case
  proof (cases "a s")
    case (Inl x)
    then show ?thesis using ab by (simp add: then_act_def)
  next
    case (Inr t)
    have "node_stack t = K" using same_stack [of a s t] Inr Cons.prems by simp
    then have "seq as t = seq bs t" using Cons.IH Cons.prems by simp
    then show ?thesis using Inr ab by (simp add: then_act_def)
  qed
qed


section \<open>Binary operators of equal precedence\<close>

lemma frame_visit_op: "keeps frame (visit_op n str)"
  by (rule keeps_visit_op [OF closed_frame])

definition binop_inner :: "node \<Rightarrow> operator \<Rightarrow> node \<Rightarrow> act" where
  "binop_inner l oper r =
     seq [visit l Plain, write_code '' '',
          visit_op (Operator_node oper) (operator_to_str oper),
          write_code '' '', visit r Plain]"

lemma precedence_of_operator_le: "precedence_of_operator oper \<le> 11"
  by (cases oper) simp_all

lemma precedence_is_BinOp:
  assumes e: "precedence_of_node p = precedence_of_operator oper"
  shows "\<exists>pi pl po pr. p = Some (BinOp pi pl po pr)"
proof (cases p)
  case None
  then show ?thesis using e precedence_of_operator_ge [of oper]
    by (simp add: precedence_of_node_def)
next
  case (Some n)
  show ?thesis
  proof (cases n)
    case (UnaryOp u x)
    then show ?thesis using e Some by (cases u; cases oper) (simp_all add: precedence_of_node_def)
  next
    case (BoolOp b x)
    then show ?thesis using e Some by (cases b; cases oper) (simp_all add: precedence_of_node_def)
  qed (use e Some precedence_of_operator_ge [of oper] precedence_of_operator_le [of oper]
      in \<open>simp_all add: precedence_of_node_def\<close>)
qed

lemma binop_operand_rule:
  assumes "node_stack t = st @ [BinOp p L po R]"
    and "precedence_of_operator oper = precedence_of_operator po"
  shows "visit (BinOp q l oper r) Plain t =
         visiting (BinOp q l oper r)
           (parenthesize_if (if oper = Pow then BinOp q l oper r = L else BinOp q l oper r = R)
              (binop_inner l oper r)) t"
  using assms
  by (simp add: visit_BinOp_def binop_inner_def stack_defs precedence_of_node_def
      try_finally_def nth_append del: seq.simps)


lemma parenthesize_if_cong_stack:
  assumes "list_all2 (\<lambda>a b. \<forall>t. node_stack t = node_stack s \<longrightarrow> a t = b t) as bs"
    and "\<forall>a\<in>set as. keeps frame a"
  shows "parenthesize_if c (seq as) s = parenthesize_if c (seq bs) s"
proof (cases c)
  case False
  then show ?thesis using seq_cong_stack [OF assms refl] by (simp add: parenthesize_if_def)
next
  case True
  have m: "\<forall>t. node_stack t = node_stack s \<longrightarrow> seq as t = seq bs t"
    using seq_cong_stack [OF assms] by simp
  have "seq [write_code ''('', seq as, write_code '')''] s =
        seq [write_code ''('', seq bs, write_code '')''] s"
    using m assms(2)
    by (intro seq_cong_stack [where K = "node_stack s"])
      (simp_all add: keeps_basic closed_frame del: seq.simps)
  then show ?thesis using True by (simp add: parenthesize_if_def)
qed

lemma visit_BinOp_cong:
  assumes a: "\<forall>t. node_stack t = node_stack s \<longrightarrow> a t = a' t"
    and b: "\<forall>t. node_stack t = node_stack s \<longrightarrow> b t = b' t"
    and k: "keeps frame a" "keeps frame b"
  shows "visit_BinOp (BinOp p L po R) a po b s = visit_BinOp (BinOp p L po R) a' po b' s"
proof -
  have e: "parenthesize_if c
             (seq [a, write_code '' '', visit_op n str, write_code '' '', b]) s =
           parenthesize_if c
             (seq [a', write_code '' '', visit_op n str, write_code '' '', b']) s" for c n str
    using a b k
    by (intro parenthesize_if_cong_stack)
      (simp_all add: keeps_basic closed_frame frame_visit_op del: seq.simps)
  show ?thesis
  proof (cases "precedence_of_node (Some (BinOp p L po R)) = precedence_of_node (get_parent_node s)")
    case True
    then have "precedence_of_node (get_parent_node s) = precedence_of_operator po"
      by (simp add: precedence_of_node_def)
    then obtain pi pl ppo pr where "get_parent_node s = Some (BinOp pi pl ppo pr)"
      using precedence_is_BinOp by blast
    then show ?thesis using e by (simp add: visit_BinOp_def Let_def del: seq.simps)
  next
    case False
    then show ?thesis using e by (simp add: visit_BinOp_def Let_def del: seq.simps)
  qed
qed

lemma node_stack_enter: "node_stack (enter n s) = node_stack s @ [n]"
  by (simp add: enter_def log_stack_def)

lemma left_operand_rule:
  assumes "precedence_of_operator oper = precedence_of_operator po"
  shows "visit (BinOp p (BinOp q l oper r) po R) v s =
         visiting (BinOp p (BinOp q l oper r) po R)
           (visit_BinOp (BinOp p (BinOp q l oper r) po R)
              (visiting (BinOp q l oper r)
                 (parenthesize_if (oper = Pow \<or> BinOp q l oper r = R) (binop_inner l oper r)))
              po (visit R Plain)) s"
proof -
  let ?P = "BinOp p (BinOp q l oper r) po R"
  have x: "visit (BinOp q l oper r) Plain t =
        visiting (BinOp q l oper r)
          (parenthesize_if (oper = Pow \<or> BinOp q l oper r = R) (binop_inner l oper r)) t"
    if "node_stack t = node_stack (enter ?P s)" for t
    using binop_operand_rule [OF that [unfolded node_stack_enter] assms, of q l r]
    by (cases "oper = Pow") simp_all
  have "visit_BinOp ?P (visit (BinOp q l oper r) Plain) po (visit R Plain) (enter ?P s) =
        visit_BinOp ?P
          (visiting (BinOp q l oper r)
             (parenthesize_if (oper = Pow \<or> BinOp q l oper r = R) (binop_inner l oper r)))
          po (visit R Plain) (enter ?P s)"
    using x by (intro visit_BinOp_cong) (simp_all add: keeps_visit closed_frame del: visit.simps)
  then show ?thesis
    by (simp add: visiting_def [of ?P] try_finally_def)
qed

lemma right_operand_rule:
  assumes "precedence_of_operator oper = precedence_of_operator po"
  shows "visit (BinOp p L po (BinOp q l oper r)) v s =
         visiting (BinOp p L po (BinOp q l oper r))
           (visit_BinOp (BinOp p L po (BinOp q l oper r))
              (visit L Plain) po
              (visiting (BinOp q l oper r)
                 (parenthesize_if (oper \<noteq> Pow \<or> BinOp q l oper r = L)
                    (binop_inner l oper r)))) s"
proof -
  let ?P = "BinOp p L po (BinOp q l oper r)"
  have x: "visit (BinOp q l oper r) Plain t =
        visiting (BinOp q l oper r)
          (parenthesize_if (oper \<noteq> Pow \<or> BinOp q l oper r = L) (binop_inner l oper r)) t"
    if "node_stack t = node_stack (enter ?P s)" for t
    using binop_operand_rule [OF that [unfolded node_stack_enter] assms, of q l r]
    by (cases "oper = Pow") simp_all
  have "visit_BinOp ?P (visit L Plain) po (visit (BinOp q l oper r) Plain) (enter ?P s) =
        visit_BinOp ?P (visit L Plain) po
          (visiting (BinOp q l oper r)
             (parenthesize_if (oper \<noteq> Pow \<or> BinOp q l oper r = L) (binop_inner l oper r)))
          (enter ?P s)"
    using x by (intro visit_BinOp_cong) (simp_all add: keeps_visit closed_frame del: visit.simps)
  then show ?thesis
    by (simp add: visiting_def [of ?P] try_finally_def)
qed

lemma left_nested_text:
  "precedence_of_operator oper = precedence_of_operator po \<Longrightarrow>
   decompile (Module [Expr (BinOp p (BinOp q (Name a) oper (Name b)) po (Name c))]) i w =
     Inr ((if oper = Pow then ''('' @ a @ '' ** '' @ b @ '')''
           else a @ '' '' @ operator_to_str oper @ '' '' @ b)
          @ '' '' @ operator_to_str po @ '' '' @ c @ newline)"
  using precedence_of_operator_ge [of po]
  by (simp add: decompile_def init_def buffer_defs stack_defs precedence_of_node_def
      visit_Module_def visit_Expr_def visit_BinOp_def visit_Name_def visit_op_def)

lemma right_nested_text:
  "precedence_of_operator oper = precedence_of_operator po \<Longrightarrow>
   decompile (Module [Expr (BinOp p (Name a) po (BinOp q (Name b) oper (Name c)))]) i w =
     Inr (a @ '' '' @ operator_to_str po @ '' ''
          @ (if oper = Pow then b @ '' ** '' @ c
             else ''('' @ b @ '' '' @ operator_to_str oper @ '' '' @ c @ '')'')
          @ newline)"
  using precedence_of_operator_ge [of po]
  by (simp add: decompile_def init_def buffer_defs stack_defs precedence_of_node_def
      visit_Module_def visit_Expr_def visit_BinOp_def visit_Name_def visit_op_def)

text \<open>
  C4 (as amended). Take a binary operation \<open>po\<close> with an operand that is a binary operation
  \<open>oper\<close> of the same precedence. Between names, the left-grouped tree is written
  \<open>(a ** b) ** c\<close> for the power operator and \<open>a oper b po c\<close> otherwise, and the
  right-grouped tree \<open>a ** b ** c\<close> for the power operator and \<open>a po (b oper c)\<close>
  otherwise. For any operands and from any state, the visit of the operation is
  \<^verbatim>\<open>visit_BinOp\<close> run with this visit of the operand: as the left operand it is written in
  parentheses exactly when \<open>oper\<close> is the power operator or the operand is the very object
  that is also the right operand; as the right operand, exactly when \<open>oper\<close> is not the
  power operator or the operand is the very object that is also the left operand.
\<close>

theorem binop_operands_of_equal_precedence:
  assumes "precedence_of_operator oper = precedence_of_operator po"
  shows
    "decompile (Module [Expr (BinOp p (BinOp q (Name a) oper (Name b)) po (Name c))]) i w =
       Inr ((if oper = Pow then ''('' @ a @ '' ** '' @ b @ '')''
             else a @ '' '' @ operator_to_str oper @ '' '' @ b)
            @ '' '' @ operator_to_str po @ '' '' @ c @ newline)
     \<and> decompile (Module [Expr (BinOp p (Name a) po (BinOp q (Name b) oper (Name c)))]) i w =
       Inr (a @ '' '' @ operator_to_str po @ '' ''
            @ (if oper = Pow then b @ '' ** '' @ c
               else ''('' @ b @ '' '' @ operator_to_str oper @ '' '' @ c @ '')'')
            @ newline)
     \<and> visit (BinOp p (BinOp q l oper r) po R) v s =
         visiting (BinOp p (BinOp q l oper r) po R)
           (visit_BinOp (BinOp p (BinOp q l oper r) po R)
              (visiting (BinOp q l oper r)
                 (parenthesize_if (oper = Pow \<or> BinOp q l oper r = R) (binop_inner l oper r)))
              po (visit R Plain)) s
     \<and> visit (BinOp p L po (BinOp q l oper r)) v s =
         visiting (BinOp p L po (BinOp q l oper r))
           (visit_BinOp (BinOp p L po (BinOp q l oper r))
              (visit L Plain) po
              (visiting (BinOp q l oper r)
                 (parenthesize_if (oper \<noteq> Pow \<or> BinOp q l oper r = L)
                    (binop_inner l oper r)))) s"
  using left_nested_text [OF assms] right_nested_text [OF assms]
    left_operand_rule [OF assms] right_operand_rule [OF assms]
  by (intro conjI)

theorem binop_operands_of_equal_precedence_witness:
  "precedence_of_operator Pow = precedence_of_operator Pow
   \<and> precedence_of_operator Add = precedence_of_operator Sub
   \<and> decompile (Module [Expr (BinOp 1 (BinOp 2 (Name ''a'') Pow (Name ''b'')) Pow
                                 (Name ''c''))]) 4 100
       = Inr (''(a ** b) ** c'' @ newline)
   \<and> decompile (Module [Expr (BinOp 1 (Name ''a'') Pow
                                 (BinOp 2 (Name ''b'') Pow (Name ''c'')))]) 4 100
       = Inr (''a ** b ** c'' @ newline)
   \<and> decompile (Module [Expr (BinOp 1 (BinOp 2 (Name ''a'') Add (Name ''b'')) Sub
                                 (Name ''c''))]) 4 100
       = Inr (''a + b - c'' @ newline)
   \<and> decompile (Module [Expr (BinOp 1 (Name ''a'') Sub
                                 (BinOp 2 (Name ''b'') Add (Name ''c'')))]) 4 100
       = Inr (''a - (b + c)'' @ newline)
   \<and> current_line (state_of
         (visit (BinOp 1 (Call (Name ''f'') [] [] None None) Sub
                   (BinOp 2 (Name ''b'') Add (Name ''c''))) Plain (init 4 100)))
       = [''f'', ''('', '')'', '' '', ''-'', '' '', ''('', ''b'', '' '', ''+'', '' '', ''c'', '')'']
   \<and> current_line (state_of
         (visit (BinOp 1 (BinOp 2 (Name ''a'') Pow (Name ''b'')) Pow
                   (Call (Name ''f'') [] [] None None)) Plain (init 4 100)))
       = [''('', ''a'', '' '', ''**'', '' '', ''b'', '')'', '' '', ''**'', '' '', ''f'', ''('', '')'']"
  using
    binop_operands_of_equal_precedence [of Pow Pow 1 2 "''a''" "''b''" "''c''" 4 100
      "Name ''a''" "Name ''b''" "Call (Name ''f'') [] [] None None" Plain "init 4 100"
      "Name ''a''"]
    binop_operands_of_equal_precedence [of Add Sub 1 2 "''a''" "''b''" "''c''" 4 100
      "Name ''b''" "Name ''c''" "Name ''c''" Plain "init 4 100"
      "Call (Name ''f'') [] [] None None"]
  by (simp add: init_def buffer_defs stack_defs precedence_of_node_def binop_inner_def
      visit_BinOp_def visit_Call_def call_args_def with_node_def visit_Name_def visit_op_def)

text \<open>
  An operand that is one object used as both operands is in parentheses on both sides:
  the left operand of a subtraction is then parenthesized too.
\<close>

theorem shared_operand_text:
  "decompile (Module [Expr (BinOp 0 (BinOp 1 (Name ''a'') Sub (Name ''b'')) Sub
                                    (BinOp 1 (Name ''a'') Sub (Name ''b'')))]) 4 100
     = Inr (''(a - b) - (a - b)'' @ newline)
   \<and> decompile (Module [Expr (BinOp 0 (BinOp 1 (Name ''a'') Sub (Name ''b'')) Sub
                                    (BinOp 1 (Name ''a'') Sub (Name ''b'')))]) 4 100
     \<noteq> Inr (''a - b - (a - b)'' @ newline)"
  by (simp add: decompile_def init_def buffer_defs stack_defs precedence_of_node_def
      visit_Module_def visit_Expr_def visit_BinOp_def visit_Name_def visit_op_def)

section \<open>The node stack and the depth of the recursion\<close>

text \<open>
  \<open>balanced s\<close>: the node stack is as long as the number of open calls of
  \<^verbatim>\<open>Decompiler.visit\<close> plus the number of markers that \<^verbatim>\<open>visit_Call\<close> has pushed and not
  yet popped, now and at every change of the node stack that the trail has recorded.
\<close>

definition balanced :: "state \<Rightarrow> bool" where
  "balanced s =
     (length (node_stack s) = depth s + markers s
      \<and> list_all (\<lambda>(st, d, m). length st = d + m) (trail s))"

definition keeps_balance :: "state \<Rightarrow> state \<Rightarrow> bool" where
  "keeps_balance s t = (frame s t \<and> (balanced s \<longrightarrow> balanced t))"

lemma closed_keeps_balance: "closed_rel keeps_balance"
  unfolding closed_rel_def
  by (auto simp: keeps_balance_def balanced_def frame_def enter_def leave_def log_stack_def
      push_marker_def pop_marker_def reset_state_def prefix_take_length
      intro: prefix_order.trans)

lemma balanced_visit: "balanced s \<Longrightarrow> balanced (state_of (visit n v s))"
  using keepsD [OF keeps_visit [OF closed_keeps_balance], of s n v]
  by (simp add: keeps_balance_def)

lemma balanced_init: "balanced (init i w)"
  by (simp add: balanced_def init_def)

text \<open>
  C5 (as amended). At every change of the node stack during a traversal, and so at
  every point of it, the length of the node stack is the depth of the recursion of
  \<^verbatim>\<open>visit\<close> plus the number of calls of \<^verbatim>\<open>visit_Call\<close> that are writing their arguments
  (each has pushed one marker \<^verbatim>\<open>_CallArgs\<close>): for the traversal that \<^verbatim>\<open>decompile\<close> starts,
  and for a visit from any state where this holds, which also leaves the stack, the
  depth and the number of markers as they were.
\<close>

theorem stack_length_is_depth_plus_markers:
  "list_all (\<lambda>(st, d, m). length st = d + m) (trail (state_of (visit n v (init i w))))
   \<and> (balanced s \<longrightarrow>
      list_all (\<lambda>(st, d, m). length st = d + m) (trail (state_of (visit n v s)))
      \<and> length (node_stack (state_of (visit n v s))) =
          depth (state_of (visit n v s)) + markers (state_of (visit n v s))
      \<and> node_stack (state_of (visit n v s)) = node_stack s
      \<and> depth (state_of (visit n v s)) = depth s
      \<and> markers (state_of (visit n v s)) = markers s)"
  using balanced_visit [OF balanced_init, of n v i w] balanced_visit [of s n v]
    frame_visit [of s n v]
  by (simp add: balanced_def frame_def)

theorem stack_length_is_depth_plus_markers_witness:
  "balanced (init 4 100)
   \<and> list_all (\<lambda>(st, d, m). length st = d + m)
       (trail (state_of
          (visit (Module [Expr (Call (Name ''f'') [Name ''a''] [] None None)]) Plain
             (init 4 100))))
   \<and> length (trail (state_of
          (visit (Module [Expr (Call (Name ''f'') [Name ''a''] [] None None)]) Plain
             (init 4 100)))) = 12
   \<and> node_stack (state_of
          (visit (Module [Expr (Call (Name ''f'') [Name ''a''] [] None None)]) Plain
             (init 4 100))) = []"
  using stack_length_is_depth_plus_markers
    [of "Module [Expr (Call (Name ''f'') [Name ''a''] [] None None)]" Plain 4 100 "init 4 100"]
  by (simp add: balanced_init)
    (simp add: init_def buffer_defs stack_defs visit_Module_def visit_Expr_def visit_Call_def
      call_args_def with_node_def visit_Name_def write_expression_list_def
      current_line_length_def)

text \<open>
  The claim as stated fails inside the arguments of a call: while \<open>f(a)\<close> is written,
  the stack holds the module, the statement, the call, the marker and the name, five
  entries, at recursion depth four.
\<close>

theorem stack_longer_than_depth_inside_call:
  "([Module [Expr (Call (Name ''f'') [Name ''a''] [] None None)],
     Expr (Call (Name ''f'') [Name ''a''] [] None None),
     Call (Name ''f'') [Name ''a''] [] None None, CallArgs, Name ''a''], 4, 1)
     \<in> set (trail (state_of
          (visit (Module [Expr (Call (Name ''f'') [Name ''a''] [] None None)]) Plain
             (init 4 100))))
   \<and> length [Module [Expr (Call (Name ''f'') [Name ''a''] [] None None)],
              Expr (Call (Name ''f'') [Name ''a''] [] None None),
              Call (Name ''f'') [Name ''a''] [] None None, CallArgs, Name ''a''] \<noteq> (4::nat)"
  by (simp add: init_def buffer_defs stack_defs visit_Module_def visit_Expr_def visit_Call_def
      call_args_def with_node_def visit_Name_def write_expression_list_def
      current_line_length_def)


section \<open>The text written so far\<close>

text \<open>
  \<open>text_of s\<close> is everything in the buffer: the completed lines and the line in
  progress. \<open>grows s t\<close>: the completed lines and the text of \<open>s\<close> are still the start
  of those of \<open>t\<close>. Every visit keeps it: what \<^verbatim>\<open>write_expression_list\<close> takes back is
  only what it wrote itself.
\<close>

definition text_of :: "state \<Rightarrow> string" where
  "text_of s = concat (lines s) @ concat (current_line s)"

definition grows :: "state \<Rightarrow> state \<Rightarrow> bool" where
  "grows s t = (prefix (lines s) (lines t) \<and> prefix (text_of s) (text_of t))"

lemma closed_grows: "closed_rel grows"
  unfolding closed_rel_def
  by (auto simp: grows_def text_of_def enter_def leave_def log_stack_def push_marker_def
      pop_marker_def reset_state_def prefix_take_length intro: prefix_order.trans)

lemma grows_visit: "keeps grows (visit n v)"
  by (rule keeps_visit [OF closed_grows])

lemma text_of_write [simp]:
  "text_of (s\<lparr>current_line := current_line s @ [c]\<rparr>) = text_of s @ c"
  by (simp add: text_of_def)

lemma text_of_enter [simp]: "text_of (enter n s) = text_of s"
  by (simp add: text_of_def enter_def log_stack_def)

lemma text_of_leave [simp]: "text_of (leave s) = text_of s"
  by (simp add: text_of_def leave_def log_stack_def)

section \<open>Lambdas and conditional expressions under operators\<close>

definition lambda_inner :: "node \<Rightarrow> node \<Rightarrow> act" where
  "lambda_inner args body =
     seq [write_code ''lambda'', lambda_space args, visit args Plain, write_code '': '',
          visit body Plain]"

definition ifexp_inner :: "node \<Rightarrow> node \<Rightarrow> node \<Rightarrow> act" where
  "ifexp_inner test body orelse =
     seq [visit body Plain, write_code '' if '', visit test Plain, write_code '' else '',
          visit orelse Plain]"

definition in_parens :: "node \<Rightarrow> act" where
  "in_parens x =
     (case x of
        Lambda args body \<Rightarrow>
          visiting x (seq [write_code ''('', lambda_inner args body, write_code '')''])
      | IfExp oid test body orelse \<Rightarrow>
          visiting x (seq [write_code ''('', ifexp_inner test body orelse, write_code '')''])
      | _ \<Rightarrow> visit x Plain)"

lemma get_parent_node_enter:
  "node_stack t = st @ [P] \<Longrightarrow> get_parent_node (enter x t) = Some P"
  by (simp add: get_parent_node_def enter_def log_stack_def nth_append)

lemma ifexp_parent_lambda_parent: "ifexp_parent P \<Longrightarrow> lambda_parent P"
  by (auto simp: ifexp_parent_def lambda_parent_def)

lemma lambda_under:
  assumes "node_stack t = st @ [P]" "lambda_parent P"
  shows "visit (Lambda args body) Plain t = in_parens (Lambda args body) t"
  using assms get_parent_node_enter [OF assms(1), of "Lambda args body"]
  by (simp add: in_parens_def lambda_inner_def visiting_def try_finally_def visit_Lambda_def
      parent_is_def parenthesize_if_def del: seq.simps)

lemma ifexp_under:
  assumes "node_stack t = st @ [P]"
    "ifexp_parent P \<or> (is_IfExp P \<and> is_test_or_body (IfExp i test body orelse) (Some P))"
  shows "visit (IfExp i test body orelse) Plain t = in_parens (IfExp i test body orelse) t"
  using assms get_parent_node_enter [OF assms(1), of "IfExp i test body orelse"]
  by (auto simp: in_parens_def ifexp_inner_def visiting_def try_finally_def visit_IfExp_def
      parent_is_def parenthesize_if_def simp del: seq.simps)

lemma in_parens_other: "\<not> is_Lambda x \<Longrightarrow> \<not> is_IfExp x \<Longrightarrow> in_parens x = visit x Plain"
  by (cases x) (simp_all add: in_parens_def is_Lambda_def is_IfExp_def)

lemma operand_under:
  assumes "node_stack t = st @ [P]" "ifexp_parent P"
  shows "visit x Plain t = in_parens x t"
proof (cases "is_Lambda x \<or> is_IfExp x")
  case False
  then show ?thesis by (simp add: in_parens_other)
next
  case True
  then show ?thesis
    using lambda_under [OF assms(1) ifexp_parent_lambda_parent [OF assms(2)]]
      ifexp_under [OF assms(1)] assms(2)
    by (cases x) (simp_all add: is_Lambda_def is_IfExp_def)
qed

lemma test_or_body_under:
  assumes "node_stack t = st @ [IfExp p ptest pbody porelse]" "x = ptest \<or> x = pbody"
  shows "visit x Plain t = in_parens x t"
proof (cases "is_Lambda x \<or> is_IfExp x")
  case False
  then show ?thesis by (simp add: in_parens_other)
next
  case True
  have l: "lambda_parent (IfExp p ptest pbody porelse)"
    by (simp add: lambda_parent_def is_IfExp_def)
  have i: "is_IfExp (IfExp p ptest pbody porelse) \<and>
           is_test_or_body x (Some (IfExp p ptest pbody porelse))"
    using assms(2) by (simp add: is_IfExp_def is_test_or_body_def)
  show ?thesis
    using True lambda_under [OF assms(1) l] ifexp_under [OF assms(1)] i
    by (cases x) (simp_all add: is_Lambda_def is_IfExp_def)
qed


lemma frame_keeps_visit: "keeps frame (visit n v)"
  by (rule keeps_visit [OF closed_frame])

lemma binop_parens_rule:
  "visit (BinOp p L po R) v s =
   visiting (BinOp p L po R) (visit_BinOp (BinOp p L po R) (in_parens L) po (in_parens R)) s"
proof -
  let ?P = "BinOp p L po R"
  have u: "visit x Plain t = in_parens x t" if "node_stack t = node_stack (enter ?P s)" for t x
    using that by (intro operand_under [where st = "node_stack s" and P = ?P])
      (simp_all add: node_stack_enter ifexp_parent_def is_BinOp_def)
  have "visit_BinOp ?P (visit L Plain) po (visit R Plain) (enter ?P s) =
        visit_BinOp ?P (in_parens L) po (in_parens R) (enter ?P s)"
    using u by (intro visit_BinOp_cong) (simp_all add: frame_keeps_visit)
  then show ?thesis
    by (simp add: visiting_def [of ?P] try_finally_def)
qed

lemma unaryop_parens_rule:
  "visit (UnaryOp u x) v s =
   visiting (UnaryOp u x) (visit_UnaryOp (UnaryOp u x) u (in_parens x)) s"
proof -
  let ?P = "UnaryOp u x"
  have a: "\<forall>t. node_stack t = node_stack (enter ?P s) \<longrightarrow> visit x Plain t = in_parens x t"
    by (intro allI impI operand_under [where st = "node_stack s" and P = ?P])
      (simp_all add: node_stack_enter ifexp_parent_def is_UnaryOp_def)
  have "parenthesize_if c (seq [visit_op n str, visit x Plain]) (enter ?P s) =
        parenthesize_if c (seq [visit_op n str, in_parens x]) (enter ?P s)" for c n str
    using a by (intro parenthesize_if_cong_stack)
      (simp_all add: frame_keeps_visit frame_visit_op del: seq.simps)
  then have "visit_UnaryOp ?P u (visit x Plain) (enter ?P s) =
             visit_UnaryOp ?P u (in_parens x) (enter ?P s)"
    by (simp add: visit_UnaryOp_def Let_def del: seq.simps)
  then show ?thesis
    by (simp add: visiting_def [of ?P] try_finally_def)
qed

lemma seq_first_cong: "a s = b s \<Longrightarrow> seq (a # rest) s = seq (b # rest) s"
  by (simp add: then_act_def)

lemma call_parens_rule:
  "visit (Call func args kws starargs kwargs) v s =
   visiting (Call func args kws starargs kwargs)
     (visit_Call (in_parens func)
        (map (\<lambda>x. visit x Plain) args @ map (\<lambda>x. visit x Plain) kws)
        (with_node starargs (map_option (\<lambda>x. visit x Plain) starargs))
        (with_node kwargs (map_option (\<lambda>x. visit x Plain) kwargs))) s"
proof -
  let ?P = "Call func args kws starargs kwargs"
  have "visit func Plain (enter ?P s) = in_parens func (enter ?P s)"
    by (intro operand_under [where st = "node_stack s" and P = ?P])
      (simp_all add: node_stack_enter ifexp_parent_def is_Call_def)
  then show ?thesis
    by (simp add: visiting_def [of ?P] try_finally_def visit_Call_def then_act_def)
qed

lemma attribute_parens_rule:
  "visit (Attribute val attr) v s =
   visiting (Attribute val attr) (visit_Attribute (in_parens val) attr) s"
proof -
  let ?P = "Attribute val attr"
  have "visit val Plain (enter ?P s) = in_parens val (enter ?P s)"
    by (intro operand_under [where st = "node_stack s" and P = ?P])
      (simp_all add: node_stack_enter ifexp_parent_def is_Attribute_def)
  then show ?thesis
    by (simp add: visiting_def [of ?P] try_finally_def visit_Attribute_def then_act_def)
qed

lemma subscript_parens_rule:
  "visit (Subscript val slice) v s =
   visiting (Subscript val slice) (visit_Subscript (in_parens val) (visit slice Plain)) s"
proof -
  let ?P = "Subscript val slice"
  have "visit val Plain (enter ?P s) = in_parens val (enter ?P s)"
    by (intro operand_under [where st = "node_stack s" and P = ?P])
      (simp_all add: node_stack_enter ifexp_parent_def is_Subscript_def)
  then show ?thesis
    by (simp add: visiting_def [of ?P] try_finally_def visit_Subscript_def then_act_def)
qed

lemma ifexp_parens_rule:
  "visit (IfExp p test body orelse) v s =
   visiting (IfExp p test body orelse)
     (visit_IfExp (IfExp p test body orelse) (in_parens test) (in_parens body)
        (visit orelse Plain)) s"
proof -
  let ?P = "IfExp p test body orelse"
  have a: "\<forall>t. node_stack t = node_stack (enter ?P s) \<longrightarrow> visit x Plain t = in_parens x t"
    if "x = test \<or> x = body" for x
    using that by (intro allI impI test_or_body_under [where st = "node_stack s" and p = p
          and ptest = test and pbody = body and porelse = orelse])
      (simp_all add: node_stack_enter)
  have "parenthesize_if c
          (seq [visit body Plain, write_code '' if '', visit test Plain, write_code '' else '',
                visit orelse Plain]) (enter ?P s) =
        parenthesize_if c
          (seq [in_parens body, write_code '' if '', in_parens test, write_code '' else '',
                visit orelse Plain]) (enter ?P s)" for c
    using a [of test] a [of body] by (intro parenthesize_if_cong_stack)
      (simp_all add: frame_keeps_visit keeps_basic closed_frame del: seq.simps)
  then have "visit_IfExp ?P (visit test Plain) (visit body Plain) (visit orelse Plain)
               (enter ?P s) =
             visit_IfExp ?P (in_parens test) (in_parens body) (visit orelse Plain) (enter ?P s)"
    by (simp add: visit_IfExp_def Let_def del: seq.simps)
  then show ?thesis
    by (simp add: visiting_def [of ?P] try_finally_def)
qed


definition compare_item :: "cmpop \<times> act \<Rightarrow> act" where
  "compare_item = (\<lambda>(oper, expr).
     seq [write_code '' '', visit_op (Cmpop_node oper) (cmpop_to_str oper), write_code '' '',
          expr])"

lemma compare_items_agree:
  assumes "list_all2 (\<lambda>a b. (\<forall>t. node_stack t = K \<longrightarrow> a t = b t) \<and> keeps frame a) as bs"
  shows "list_all2 (\<lambda>a b. \<forall>t. node_stack t = K \<longrightarrow> a t = b t)
           (map compare_item (zip ops as)) (map compare_item (zip ops bs))
         \<and> (\<forall>a\<in>set (map compare_item (zip ops as)). keeps frame a)"
  using assms
proof (induction ops arbitrary: as bs)
  case Nil
  then show ?case by simp
next
  case (Cons oper ops)
  show ?case
  proof (cases as)
    case Nil
    then show ?thesis using Cons.prems by simp
  next
    case (Cons a as')
    then obtain b bs' where bs: "bs = b # bs'"
      and ab: "\<forall>t. node_stack t = K \<longrightarrow> a t = b t" and ka: "keeps frame a"
      and rest: "list_all2 (\<lambda>a b. (\<forall>t. node_stack t = K \<longrightarrow> a t = b t) \<and> keeps frame a) as' bs'"
      using Cons.prems by (auto simp: list_all2_Cons1)
    have "compare_item (oper, a) t = compare_item (oper, b) t" if "node_stack t = K" for t
      unfolding compare_item_def prod.case
      using ab ka that
      by (intro seq_cong_stack [where K = K])
        (simp_all add: keeps_basic closed_frame frame_visit_op)
    moreover have "keeps frame (compare_item (oper, a))"
      using ka by (simp add: compare_item_def keeps_basic closed_frame frame_visit_op)
    ultimately show ?thesis
      using Cons.IH [OF rest] Cons bs by simp
  qed
qed

lemma compare_parens_rule:
  "visit (Compare left ops comparators) v s =
   visiting (Compare left ops comparators)
     (visit_Compare (Compare left ops comparators) (in_parens left) ops
        (map in_parens comparators)) s"
proof -
  let ?P = "Compare left ops comparators"
  let ?K = "node_stack (enter ?P s)"
  have u: "visit x Plain t = in_parens x t" if "node_stack t = ?K" for t x
    using that by (intro operand_under [where st = "node_stack s" and P = ?P])
      (simp_all add: node_stack_enter ifexp_parent_def is_Compare_def)
  have "list_all2 (\<lambda>a b. (\<forall>t. node_stack t = ?K \<longrightarrow> a t = b t) \<and> keeps frame a)
          (map (\<lambda>x. visit x Plain) comparators) (map in_parens comparators)"
    using u by (simp add: list_all2_map1 list_all2_map2 list_all2_same frame_keeps_visit)
  note items = compare_items_agree [OF this, of ops]
  have i: "\<forall>t. node_stack t = ?K \<longrightarrow>
        seq (map compare_item (zip ops (map (\<lambda>x. visit x Plain) comparators))) t =
        seq (map compare_item (zip ops (map in_parens comparators))) t"
    using items by (intro allI impI seq_cong_stack [where K = ?K]) simp_all
  have k: "keeps frame (seq (map compare_item (zip ops (map (\<lambda>x. visit x Plain) comparators))))"
    using items by (intro keeps_seq closed_frame) simp
  have "parenthesize_if c
          (seq [visit left Plain,
                seq (map compare_item (zip ops (map (\<lambda>x. visit x Plain) comparators)))])
          (enter ?P s) =
        parenthesize_if c
          (seq [in_parens left, seq (map compare_item (zip ops (map in_parens comparators)))])
          (enter ?P s)" for c
    using u i k by (intro parenthesize_if_cong_stack)
      (simp_all add: frame_keeps_visit del: seq.simps)
  then have "visit_Compare ?P (visit left Plain) ops (map (\<lambda>x. visit x Plain) comparators)
               (enter ?P s) =
             visit_Compare ?P (in_parens left) ops (map in_parens comparators) (enter ?P s)"
    by (simp add: visit_Compare_def Let_def compare_item_def del: seq.simps)
  then show ?thesis
    by (simp add: visiting_def [of ?P] try_finally_def)
qed


lemma parens_text:
  assumes k: "keeps grows inner"
    and r: "visiting x (seq [write_code ''('', inner, write_code '')'']) s = Inr t"
  shows "\<exists>mid. text_of t = text_of s @ ''('' @ mid @ '')''"
proof -
  let ?s1 = "(enter x s)\<lparr>current_line := current_line (enter x s) @ [''('']\<rparr>"
  obtain s2 where i: "inner ?s1 = Inr s2"
    and t: "t = leave (s2\<lparr>current_line := current_line s2 @ ['')'']\<rparr>)"
    using r
    by (auto simp: visiting_def try_finally_def then_act_def write_code_def
        split: sum.splits prod.splits)
  have "prefix (text_of ?s1) (text_of s2)"
    using keepsD [OF k, of ?s1] i by (simp add: grows_def)
  then obtain mid where "text_of s2 = text_of ?s1 @ mid"
    by (auto simp: prefix_def)
  then show ?thesis using t by simp
qed

lemma keeps_lambda_inner: "keeps grows (lambda_inner args body)"
  by (simp add: lambda_inner_def keeps_basic closed_grows keeps_lambda_space grows_visit)

lemma keeps_ifexp_inner: "keeps grows (ifexp_inner test body orelse)"
  by (simp add: ifexp_inner_def keeps_basic closed_grows grows_visit)

lemma in_parens_text:
  assumes "is_Lambda x \<or> is_IfExp x" "in_parens x s = Inr t"
  shows "\<exists>mid. text_of t = text_of s @ ''('' @ mid @ '')''"
proof (cases x)
  case (Lambda args body)
  then show ?thesis
    using assms(2) parens_text [OF keeps_lambda_inner, of x args body s t]
    by (simp add: in_parens_def del: seq.simps)
next
  case (IfExp i test body orelse)
  then show ?thesis
    using assms(2) parens_text [OF keeps_ifexp_inner, of x test body orelse s t]
    by (simp add: in_parens_def del: seq.simps)
qed (use assms(1) in \<open>simp_all add: is_Lambda_def is_IfExp_def\<close>)

text \<open>
  C3. From any state, the visit of a binary operation, a unary operation, a
  comparison, a call, an attribute access, a subscript or a conditional expression is
  the method of its class run with \<open>in_parens\<close> for the visit of each operand, of the
  callee, of the base, and of the test and the true branch of the conditional
  expression. \<open>in_parens\<close> of a lambda or a conditional expression is its visit with the
  opening parenthesis written first and the closing one last, so that the text it adds
  starts with \<open>(\<close> and ends with \<open>)\<close>; of any other node it is the plain visit.
\<close>

theorem lambda_and_ifexp_in_parentheses:
  "visit (BinOp p L po R) v s =
     visiting (BinOp p L po R) (visit_BinOp (BinOp p L po R) (in_parens L) po (in_parens R)) s
   \<and> visit (UnaryOp u x) v s =
     visiting (UnaryOp u x) (visit_UnaryOp (UnaryOp u x) u (in_parens x)) s
   \<and> visit (Compare left ops comparators) v s =
     visiting (Compare left ops comparators)
       (visit_Compare (Compare left ops comparators) (in_parens left) ops
          (map in_parens comparators)) s
   \<and> visit (Call func args kws starargs kwargs) v s =
     visiting (Call func args kws starargs kwargs)
       (visit_Call (in_parens func)
          (map (\<lambda>x. visit x Plain) args @ map (\<lambda>x. visit x Plain) kws)
          (with_node starargs (map_option (\<lambda>x. visit x Plain) starargs))
          (with_node kwargs (map_option (\<lambda>x. visit x Plain) kwargs))) s
   \<and> visit (Attribute val attr) v s =
     visiting (Attribute val attr) (visit_Attribute (in_parens val) attr) s
   \<and> visit (Subscript base slice) v s =
     visiting (Subscript base slice) (visit_Subscript (in_parens base) (visit slice Plain)) s
   \<and> visit (IfExp i test body orelse) v s =
     visiting (IfExp i test body orelse)
       (visit_IfExp (IfExp i test body orelse) (in_parens test) (in_parens body)
          (visit orelse Plain)) s
   \<and> in_parens (Lambda largs lbody) =
     visiting (Lambda largs lbody)
       (seq [write_code ''('', lambda_inner largs lbody, write_code '')''])
   \<and> in_parens (IfExp j jtest jbody jorelse) =
     visiting (IfExp j jtest jbody jorelse)
       (seq [write_code ''('', ifexp_inner jtest jbody jorelse, write_code '')''])
   \<and> ((is_Lambda y \<or> is_IfExp y) \<and> in_parens y s = Inr t \<longrightarrow>
      (\<exists>mid. text_of t = text_of s @ ''('' @ mid @ '')''))"
  apply (intro conjI impI)
           apply (rule binop_parens_rule)
          apply (rule unaryop_parens_rule)
         apply (rule compare_parens_rule)
        apply (rule call_parens_rule)
       apply (rule attribute_parens_rule)
      apply (rule subscript_parens_rule)
     apply (rule ifexp_parens_rule)
    apply (simp add: in_parens_def del: seq.simps visit.simps)
   apply (simp add: in_parens_def del: seq.simps visit.simps)
  apply (erule conjE)
  apply (erule in_parens_text)
  apply assumption
  done

theorem lambda_and_ifexp_in_parentheses_witness:
  "(is_Lambda (Lambda (arguments [] None None []) (Name ''x''))
      \<or> is_IfExp (Lambda (arguments [] None None []) (Name ''x'')))
   \<and> current_line (state_of
         (visit (Call (Lambda (arguments [] None None []) (Name ''x'')) [] [] None None) Plain
            (init 4 100)))
       = [''('', ''lambda'', '': '', ''x'', '')'', ''('', '')'']
   \<and> current_line (state_of
         (visit (BinOp 1 (Name ''a'') Add (IfExp 2 (Name ''t'') (Name ''b'') (Name ''e''))) Plain
            (init 4 100)))
       = [''a'', '' '', ''+'', '' '', ''('', ''b'', '' if '', ''t'', '' else '', ''e'', '')'']
   \<and> current_line (state_of
         (visit (IfExp 1 (IfExp 2 (Name ''t'') (Name ''b'') (Name ''e'')) (Name ''c'')
                   (IfExp 3 (Name ''u'') (Name ''d'') (Name ''f''))) Plain
            (init 4 100)))
       = [''c'', '' if '', ''('', ''b'', '' if '', ''t'', '' else '', ''e'', '')'', '' else '',
          ''d'', '' if '', ''u'', '' else '', ''f'']"
  using lambda_and_ifexp_in_parentheses
    [where func = "Lambda (arguments [] None None []) (Name ''x'')" and args = "[]"
       and kws = "[]" and starargs = None and kwargs = None and v = Plain and s = "init 4 100"
       and p = 1 and L = "Name ''a''" and po = Add
       and R = "IfExp 2 (Name ''t'') (Name ''b'') (Name ''e'')"
       and i = 1 and test = "IfExp 2 (Name ''t'') (Name ''b'') (Name ''e'')"
       and body = "Name ''c''" and orelse = "IfExp 3 (Name ''u'') (Name ''d'') (Name ''f'')"]
  by (simp add: is_Lambda_def)
    (simp add: init_def buffer_defs stack_defs state_of_def in_parens_def lambda_inner_def
      ifexp_inner_def lambda_space_def truthy_def visit_arguments_def arguments_list_def
      visit_Call_def call_args_def with_node_def visit_BinOp_def visit_IfExp_def
      visit_Name_def visit_op_def precedence_of_node_def ifexp_parent_def
      is_test_or_body_def is_BinOp_def is_UnaryOp_def is_Compare_def is_IfExp_def
      is_Attribute_def is_Subscript_def is_Call_def)

section \<open>Two trees with one text\<close>

text \<open>
  C1. The statement \<open>(lambda: x) or y\<close> and the statement \<open>lambda: (x or y)\<close> are
  different trees, and the decompiler writes the same text for both: the lambda under
  the boolean operator gets no parentheses. So no parser gives back both trees from the
  text.
\<close>

theorem lambda_under_boolop_text:
  "decompile (Module [Expr (BoolOp Or [Lambda (arguments [] None None []) (Name ''x''),
                                        Name ''y''])]) 4 100
     = Inr (''lambda: x or y'' @ newline)
   \<and> decompile (Module [Expr (Lambda (arguments [] None None [])
                                (BoolOp Or [Name ''x'', Name ''y'']))]) 4 100
     = Inr (''lambda: x or y'' @ newline)
   \<and> Module [Expr (BoolOp Or [Lambda (arguments [] None None []) (Name ''x''), Name ''y''])]
     \<noteq> Module [Expr (Lambda (arguments [] None None []) (BoolOp Or [Name ''x'', Name ''y'']))]"
  by (simp add: decompile_def init_def buffer_defs stack_defs precedence_of_node_def
      visit_Module_def visit_Expr_def visit_BoolOp_def visit_Lambda_def lambda_space_def
      lambda_parent_def visit_arguments_def arguments_list_def truthy_def visit_Name_def
      write_expression_list_def current_line_length_def
      is_BinOp_def is_UnaryOp_def is_Compare_def is_IfExp_def is_Attribute_def
      is_Subscript_def is_Call_def is_Lambda_def)

end
